theory Spec2Isabelle
  imports Complex_Main
begin

section \<open>Tensors, modules and errors\<close>

text \<open>
  The embedding of \<^verbatim>\<open>lora_patcher.py\<close> (class \<^verbatim>\<open>LoRAPatcherExt\<close>).
  A tensor carries its shape, dtype and device tags and its elements in row-major
  order. Elements are exact reals. The floating-point formats round: torch rounds
  in every cast and in every in-place multiplication and addition, and the model
  does not; it keeps the exact result. So the properties below say which tensors
  an operation reads and writes, under which keys, with which shapes and tags and
  on which errors, and nothing about the floating-point value an arithmetic
  operation leaves.
\<close>

datatype dtype = Float16 | BFloat16 | Float32

datatype device = CPU | CUDA

record tensor =
  shape :: "nat list"
  dtype :: dtype
  device :: device
  elems :: "real list"

definition numel :: "tensor \<Rightarrow> nat" where
  "numel t = prod_list (shape t)"

text \<open>
  The exceptions of the source: a failed \<^verbatim>\<open>assert\<close>, the \<^verbatim>\<open>Exception\<close> raised
  for a key with the wrong prefix (InvalidKeyError in the specification), the
  AttributeError of \<^verbatim>\<open>get_submodule\<close>, \<^verbatim>\<open>get_parameter\<close> and \<^verbatim>\<open>module.weight\<close>
  (MissingAttributeError), the RuntimeError of a reshape or a copy between
  incompatible shapes (ShapeError), the KeyError of a dictionary lookup, the
  TypeError of subscripting \<^verbatim>\<open>None\<close>, and an exception raised by the body of the
  scope.
\<close>

datatype error =
  AssertionError | InvalidKeyError | MissingAttributeError | ShapeError | KeyError | TypeError
  | BodyError

text \<open>
  A \<^verbatim>\<open>torch.nn.Module\<close>: its directly registered parameters and child modules, by
  name. Parameters are references to tensors in a store, since the patcher mutates
  them in place and reads them again through other paths.
\<close>

type_synonym addr = nat

type_synonym store = "addr \<Rightarrow> tensor"

datatype module = Module (parameters: "(string \<times> addr) list") (children: "(string \<times> module) list")

section \<open>Strings\<close>

text \<open>\<^verbatim>\<open>s.startswith(p)\<close>, \<^verbatim>\<open>s.split(c)\<close>, \<^verbatim>\<open>s.lstrip(c)\<close> and \<^verbatim>\<open>s.rpartition(c)\<close>.\<close>

definition startswith :: "string \<Rightarrow> string \<Rightarrow> bool" where
  "startswith s p = (take (length p) s = p)"

fun split_on :: "char \<Rightarrow> string \<Rightarrow> string list" where
  "split_on c [] = [[]]"
| "split_on c (x # xs) =
     (if x = c then [] # split_on c xs
      else (case split_on c xs of
              [] \<Rightarrow> [[x]]
            | p # ps \<Rightarrow> (x # p) # ps))"

definition lstrip :: "char \<Rightarrow> string \<Rightarrow> string" where
  "lstrip c s = dropWhile (\<lambda>x. x = c) s"

fun rpartition_acc :: "char \<Rightarrow> string \<Rightarrow> string \<Rightarrow> (string \<times> string) option" where
  "rpartition_acc c [] tl_rev = None"
| "rpartition_acc c (x # xs) after =
     (if x = c then Some (rev xs, after) else rpartition_acc c xs (x # after))"

definition rpartition :: "char \<Rightarrow> string \<Rightarrow> string \<times> string" where
  "rpartition c s =
     (case rpartition_acc c (rev s) [] of
        None \<Rightarrow> ([], s)
      | Some (before, after) \<Rightarrow> (before, after))"

section \<open>The torch module interface\<close>

text \<open>
  \<^verbatim>\<open>Module.get_submodule(target)\<close>: the empty target is the module itself; otherwise
  the target is split on dots and every atom must name a child module.
  \<^verbatim>\<open>Module.get_parameter(target)\<close>: the part before the last dot is a submodule path,
  the part after it names a parameter of that submodule.
\<close>

fun get_atoms :: "module \<Rightarrow> string list \<Rightarrow> module option" where
  "get_atoms m [] = Some m"
| "get_atoms m (a # as) =
     (case map_of (children m) a of
        None \<Rightarrow> None
      | Some c \<Rightarrow> get_atoms c as)"

definition get_submodule :: "module \<Rightarrow> string \<Rightarrow> module option" where
  "get_submodule m target =
     (if target = [] then Some m else get_atoms m (split_on CHR ''.'' target))"

definition get_parameter :: "module \<Rightarrow> string \<Rightarrow> addr option" where
  "get_parameter m target =
     (case rpartition CHR ''.'' target of
        (module_path, param_name) \<Rightarrow>
          (case get_submodule m module_path of
             None \<Rightarrow> None
           | Some md \<Rightarrow> map_of (parameters md) param_name))"

section \<open>Key resolution\<close>

text \<open>
  The \<^verbatim>\<open>while len(key_parts) > 0\<close> loop of \<^verbatim>\<open>_resolve_lora_key\<close>. Its state is the
  current module, the key built so far, the submodule name being tried, and the
  parts not yet popped. The \<^verbatim>\<open>try\<close> branch descends and pops the next part as a new
  name; the \<^verbatim>\<open>except\<close> branch appends an underscore and the next part to the name.
\<close>

fun resolve_loop :: "module \<Rightarrow> string \<Rightarrow> string \<Rightarrow> string list \<Rightarrow> module \<times> string \<times> string" where
  "resolve_loop m module_key submodule_name [] = (m, module_key, submodule_name)"
| "resolve_loop m module_key submodule_name (p # key_parts) =
     (case get_submodule m submodule_name of
        Some m' \<Rightarrow> resolve_loop m' (module_key @ ''.'' @ submodule_name) p key_parts
      | None \<Rightarrow> resolve_loop m module_key (submodule_name @ ''_'' @ p) key_parts)"

definition resolve_lora_key :: "module \<Rightarrow> string \<Rightarrow> string \<Rightarrow> error + (string \<times> module)" where
  "resolve_lora_key model lora_key prefix =
     (if CHR ''.'' \<in> set lora_key then Inl AssertionError
      else if \<not> startswith lora_key prefix then Inl InvalidKeyError
      else (case split_on CHR ''_'' (drop (length prefix) lora_key) of
              [] \<Rightarrow> Inl KeyError
            | p # key_parts \<Rightarrow>
                (case resolve_loop model [] p key_parts of
                   (m, module_key, submodule_name) \<Rightarrow>
                     (case get_submodule m submodule_name of
                        None \<Rightarrow> Inl MissingAttributeError
                      | Some m' \<Rightarrow>
                          Inr (lstrip CHR ''.'' (module_key @ ''.'' @ submodule_name), m')))))"

text \<open>
  The resolution algorithm as the specification words it: the path of resolved
  tokens is kept as a list; a token that resolves is appended to the path and the
  next raw token opens a new accumulated token; a token that does not resolve is
  extended by an underscore and the next raw token; when no raw token is left the
  accumulated token must resolve. The canonical key joins the path with dots, each
  token preceded by one, and strips the leading dots.
\<close>

fun spec_descend :: "module \<Rightarrow> string list \<Rightarrow> string \<Rightarrow> string list \<Rightarrow> (string list \<times> module) option" where
  "spec_descend m path acc [] =
     (case get_submodule m acc of
        None \<Rightarrow> None
      | Some m' \<Rightarrow> Some (path @ [acc], m'))"
| "spec_descend m path acc (t # ts) =
     (case get_submodule m acc of
        Some m' \<Rightarrow> spec_descend m' (path @ [acc]) t ts
      | None \<Rightarrow> spec_descend m path (acc @ ''_'' @ t) ts)"

definition spec_canonical_key :: "string list \<Rightarrow> string" where
  "spec_canonical_key path = lstrip CHR ''.'' (concat (map (\<lambda>t. ''.'' @ t) path))"

definition spec_resolve :: "module \<Rightarrow> string \<Rightarrow> string \<Rightarrow> error + (string \<times> module)" where
  "spec_resolve model key prefix =
     (let tokens = split_on CHR ''_'' (drop (length prefix) key)
      in case spec_descend model [] (hd tokens) (tl tokens) of
           None \<Rightarrow> Inl MissingAttributeError
         | Some (path, m') \<Rightarrow> Inr (spec_canonical_key path, m'))"

section \<open>Layers and their scale\<close>

text \<open>
  A LoRA layer as the patcher sees it: \<^verbatim>\<open>alpha\<close> and \<^verbatim>\<open>rank\<close>, either of which may
  be \<^verbatim>\<open>None\<close>, and the result of \<^verbatim>\<open>get_parameters(module)\<close>, a dictionary from
  parameter names to delta tensors, in the order of its items. The class of the
  layers is not part of this file of the repository, so what it returns is a field.

  A delta is a tensor object, and the patcher writes to it (line 141), so it
  matters whose it is. \<open>Fresh t\<close> is a tensor computed for this call, which nothing
  else refers to. \<open>Stored b t\<close> is a tensor the layer owns and hands out again at
  every call: \<open>b\<close> is its address among the tensors of the layers (these are not
  parameters of the model), and \<open>t\<close> is what it holds when the session starts.
\<close>

datatype delta = Fresh tensor | Stored addr tensor

record lora_layer =
  alpha :: "real option"
  rank :: "int option"
  get_parameters :: "module \<Rightarrow> (string \<times> delta) list"

text \<open>Python's truth value of an optional number: \<^verbatim>\<open>None\<close> and zero are false.\<close>

definition truthy_real :: "real option \<Rightarrow> bool" where
  "truthy_real x = (case x of None \<Rightarrow> False | Some a \<Rightarrow> a \<noteq> 0)"

definition truthy_int :: "int option \<Rightarrow> bool" where
  "truthy_int x = (case x of None \<Rightarrow> False | Some r \<Rightarrow> r \<noteq> 0)"

definition layer_scale :: "lora_layer \<Rightarrow> real" where
  "layer_scale layer =
     (if truthy_real (alpha layer) \<and> truthy_int (rank layer)
      then the (alpha layer) / real_of_int (the (rank layer))
      else 1)"

section \<open>Tensor operations\<close>

text \<open>
  Broadcasting, as \<^verbatim>\<open>p += t\<close> and \<^verbatim>\<open>p.copy_(t)\<close> apply it to a source \<open>t\<close> whose
  shape is not the shape of the target: the source may have fewer dimensions, which
  are filled with ones on the left; then every dimension of the source is the
  dimension of the target, or is one and is repeated. \<open>parts k n xs\<close> cuts a list
  into \<open>k\<close> rows of \<open>n\<close> elements.
\<close>

definition parts :: "nat \<Rightarrow> nat \<Rightarrow> 'a list \<Rightarrow> 'a list list" where
  "parts k n xs = map (\<lambda>i. take n (drop (i * n) xs)) [0..<k]"

fun expand :: "nat list \<Rightarrow> nat list \<Rightarrow> real list \<Rightarrow> real list option" where
  "expand [] [] xs = Some xs"
| "expand (s # ss) (d # ds) xs =
     (if s = d then map_option concat (those (map (expand ss ds) (parts s (prod_list ss) xs)))
      else if s = 1 then map_option (\<lambda>ys. concat (replicate d ys)) (expand ss ds xs)
      else None)"
| "expand [] (d # ds) xs = None"
| "expand (s # ss) [] xs = None"

definition broadcast :: "nat list \<Rightarrow> nat list \<Rightarrow> real list \<Rightarrow> real list option" where
  "broadcast src dst xs =
     (if length dst < length src then None
      else expand (replicate (length dst - length src) 1 @ src) dst xs)"

text \<open>
  \<^verbatim>\<open>t.reshape(shape)\<close> succeeds when the element counts agree and raises otherwise;
  what it returns shares its elements with \<open>t\<close> (a view: the tensors of the model
  are contiguous). The in-place operations \<^verbatim>\<open>t *= c\<close>, \<^verbatim>\<open>p += t\<close> and
  \<^verbatim>\<open>p.copy_(t)\<close> change the elements of their target and none of its tags;
  the last two raise when the source cannot be broadcast to the target.
  \<^verbatim>\<open>t.to(dtype=d)\<close> and \<^verbatim>\<open>t.to(device=d)\<close> change one tag.
\<close>

definition reshape :: "tensor \<Rightarrow> nat list \<Rightarrow> error + tensor" where
  "reshape t shp = (if prod_list shp = numel t then Inr (t\<lparr>shape := shp\<rparr>) else Inl ShapeError)"

definition imul :: "tensor \<Rightarrow> real \<Rightarrow> tensor" where
  "imul t c = t\<lparr>elems := map (\<lambda>x. x * c) (elems t)\<rparr>"

definition iadd :: "tensor \<Rightarrow> tensor \<Rightarrow> error + tensor" where
  "iadd p t =
     (if shape t = shape p then Inr (p\<lparr>elems := map2 (+) (elems p) (elems t)\<rparr>)
      else (case broadcast (shape t) (shape p) (elems t) of
              None \<Rightarrow> Inl ShapeError
            | Some es \<Rightarrow> Inr (p\<lparr>elems := map2 (+) (elems p) es\<rparr>)))"

definition to_dtype :: "tensor \<Rightarrow> dtype \<Rightarrow> tensor" where
  "to_dtype t d = t\<lparr>dtype := d\<rparr>"

definition to_device :: "tensor \<Rightarrow> device \<Rightarrow> tensor" where
  "to_device t d = t\<lparr>device := d\<rparr>"

definition copy_into :: "tensor \<Rightarrow> tensor \<Rightarrow> error + tensor" where
  "copy_into p t =
     (if shape t = shape p then Inr (p\<lparr>elems := elems t\<rparr>)
      else (case broadcast (shape t) (shape p) (elems t) of
              None \<Rightarrow> Inl ShapeError
            | Some es \<Rightarrow> Inr (p\<lparr>elems := es\<rparr>)))"

section \<open>The patch session\<close>

text \<open>
  A statement of the source either completes or raises; in both cases the in-place
  mutations made so far stay. \<open>iterate\<close> is a \<^verbatim>\<open>for\<close> loop whose body may raise.
\<close>

datatype 'a outcome = Done 'a | Raised error 'a

fun state_of :: "'a outcome \<Rightarrow> 'a" where
  "state_of (Done s) = s"
| "state_of (Raised e s) = s"

fun iterate :: "('x \<Rightarrow> 's \<Rightarrow> 's outcome) \<Rightarrow> 'x list \<Rightarrow> 's \<Rightarrow> 's outcome" where
  "iterate f [] s = Done s"
| "iterate f (x # xs) s =
     (case f x s of
        Done s' \<Rightarrow> iterate f xs s'
      | Raised e s' \<Rightarrow> Raised e s')"

text \<open>
  The state of \<^verbatim>\<open>_patch_model\<close>: the tensors of the model, the set
  \<^verbatim>\<open>modified_cached_weights\<close> (in the order of insertion), the dictionary
  \<^verbatim>\<open>modified_weights\<close> (in the order of its items), and the tensors of the layers
  that the session has written to, by address.
\<close>

record session =
  store :: store
  modified_cached_weights :: "string list"
  modified_weights :: "(string \<times> tensor) list"
  layer_tensors :: "addr \<rightharpoonup> tensor"

record lora_model =
  layers :: "(string \<times> lora_layer) list"

text \<open>The block under \<^verbatim>\<open># save original weight\<close>.\<close>

definition save_original :: "(string \<rightharpoonup> tensor) \<Rightarrow> string \<Rightarrow> tensor \<Rightarrow> session \<Rightarrow> session" where
  "save_original cached_weights param_key module_param s =
     (if param_key \<notin> set (modified_cached_weights s) \<and> param_key \<notin> fst ` set (modified_weights s)
      then (if cached_weights param_key \<noteq> None
            then s\<lparr>modified_cached_weights := modified_cached_weights s @ [param_key]\<rparr>
            else s\<lparr>modified_weights := modified_weights s @ [(param_key, to_device module_param CPU)]\<rparr>)
      else s)"

text \<open>
  What a delta holds now, and line 141 on it: \<^verbatim>\<open>lora_param_weight *= c\<close> multiplies
  the elements of the tensor in place. When line 139 has reshaped it, the name
  refers to a view, and the multiplication goes through the view to the elements of
  the tensor that \<^verbatim>\<open>get_parameters\<close> returned; its own shape stays.
\<close>

definition current_in :: "(addr \<rightharpoonup> tensor) \<Rightarrow> delta \<Rightarrow> tensor" where
  "current_in lt d =
     (case d of
        Fresh t \<Rightarrow> t
      | Stored b t \<Rightarrow> (case lt b of None \<Rightarrow> t | Some t' \<Rightarrow> t'))"

definition current :: "session \<Rightarrow> delta \<Rightarrow> tensor" where
  "current s d = current_in (layer_tensors s) d"

definition scale_delta :: "real \<Rightarrow> (addr \<rightharpoonup> tensor) \<Rightarrow> delta \<Rightarrow> (addr \<rightharpoonup> tensor)" where
  "scale_delta c lt d =
     (case d of
        Fresh t \<Rightarrow> lt
      | Stored b t \<Rightarrow> lt(b \<mapsto> imul (current_in lt d) c))"

definition scale_in_place :: "delta \<Rightarrow> real \<Rightarrow> session \<Rightarrow> session" where
  "scale_in_place d c s = s\<lparr>layer_tensors := scale_delta c (layer_tensors s) d\<rparr>"

text \<open>
  The body of the loop over \<^verbatim>\<open>layer.get_parameters(module).items()\<close>, statement by
  statement: the parameter is looked up, its original is saved, the delta is
  reshaped when the shapes differ (line 139), scaled in place (line 141), cast and
  added in place to the parameter (line 142).
\<close>

definition patch_param ::
  "(string \<rightharpoonup> tensor) \<Rightarrow> string \<Rightarrow> module \<Rightarrow> real \<Rightarrow> real \<Rightarrow> dtype \<Rightarrow> string \<times> delta \<Rightarrow> session \<Rightarrow> session outcome" where
  "patch_param cached_weights module_key md lora_weight scale dt item s =
     (case item of (param_name, lora_param_weight) \<Rightarrow>
        (case get_parameter md param_name of
           None \<Rightarrow> Raised MissingAttributeError s
         | Some a \<Rightarrow>
             (let s1 = save_original cached_weights (module_key @ ''.'' @ param_name) (store s a) s;
                  t = current s1 lora_param_weight
              in case (if shape (store s1 a) \<noteq> shape t then reshape t (shape (store s1 a))
                       else Inr t) of
                   Inl e \<Rightarrow> Raised e s1
                 | Inr w \<Rightarrow>
                     (let s2 = scale_in_place lora_param_weight (lora_weight * scale) s1;
                          w' = imul w (lora_weight * scale)
                      in case iadd (store s2 a) (to_dtype w' dt) of
                           Inl e \<Rightarrow> Raised e s2
                         | Inr p' \<Rightarrow> Done (s2\<lparr>store := (store s2)(a := p')\<rparr>)))))"

text \<open>
  The body of the loop over \<^verbatim>\<open>lora.layers.items()\<close>. \<^verbatim>\<open>module.weight\<close> is read for
  its device and dtype; the staging calls \<^verbatim>\<open>layer.to(...)\<close> act on the layer only.
\<close>

definition patch_layer ::
  "(string \<rightharpoonup> tensor) \<Rightarrow> module \<Rightarrow> string \<Rightarrow> real \<Rightarrow> string \<times> lora_layer \<Rightarrow> session \<Rightarrow> session outcome" where
  "patch_layer cached_weights model prefix lora_weight item s =
     (case item of (layer_key, layer) \<Rightarrow>
        (if \<not> startswith layer_key prefix then Done s
         else (case resolve_lora_key model layer_key prefix of
                 Inl e \<Rightarrow> Raised e s
               | Inr (module_key, md) \<Rightarrow>
                   (case map_of (parameters md) ''weight'' of
                      None \<Rightarrow> Raised MissingAttributeError s
                    | Some wa \<Rightarrow>
                        iterate (patch_param cached_weights module_key md lora_weight
                                   (layer_scale layer) (dtype (store s wa)))
                          (get_parameters layer md) s))))"

definition patch_lora ::
  "(string \<rightharpoonup> tensor) \<Rightarrow> module \<Rightarrow> string \<Rightarrow> lora_model \<times> real \<Rightarrow> session \<Rightarrow> session outcome" where
  "patch_lora cached_weights model prefix item s =
     (case item of (lora, lora_weight) \<Rightarrow>
        iterate (patch_layer cached_weights model prefix lora_weight) (layers lora) s)"

definition patch_model ::
  "module \<Rightarrow> store \<Rightarrow> string \<Rightarrow> (lora_model \<times> real) list \<Rightarrow> (string \<rightharpoonup> tensor) option \<Rightarrow> session outcome" where
  "patch_model model st prefix loras cached_weights =
     (let cw = (case cached_weights of None \<Rightarrow> Map.empty | Some c \<Rightarrow> c)
      in iterate (patch_lora cw model prefix) loras
           \<lparr>store = st, modified_cached_weights = [], modified_weights = [],
            layer_tensors = Map.empty\<rparr>)"

text \<open>The two loops of the \<^verbatim>\<open>finally\<close> block of \<^verbatim>\<open>static_patch_model\<close>.\<close>

definition restore_cached :: "module \<Rightarrow> (string \<rightharpoonup> tensor) option \<Rightarrow> string \<Rightarrow> store \<Rightarrow> store outcome" where
  "restore_cached model cached_weights param_key st =
     (case get_parameter model param_key of
        None \<Rightarrow> Raised MissingAttributeError st
      | Some a \<Rightarrow>
          (case cached_weights of
             None \<Rightarrow> Raised TypeError st
           | Some c \<Rightarrow>
               (case c param_key of
                  None \<Rightarrow> Raised KeyError st
                | Some w \<Rightarrow>
                    (case copy_into (st a) w of
                       Inl e \<Rightarrow> Raised e st
                     | Inr t \<Rightarrow> Done (st(a := t))))))"

definition restore_saved :: "module \<Rightarrow> string \<times> tensor \<Rightarrow> store \<Rightarrow> store outcome" where
  "restore_saved model item st =
     (case item of (param_key, weight) \<Rightarrow>
        (case get_parameter model param_key of
           None \<Rightarrow> Raised MissingAttributeError st
         | Some a \<Rightarrow>
             (case copy_into (st a) weight of
                Inl e \<Rightarrow> Raised e st
              | Inr t \<Rightarrow> Done (st(a := t)))))"

definition restore :: "module \<Rightarrow> (string \<rightharpoonup> tensor) option \<Rightarrow> session \<Rightarrow> store outcome" where
  "restore model cached_weights s =
     (case iterate (restore_cached model cached_weights) (modified_cached_weights s) (store s) of
        Raised e st \<Rightarrow> Raised e st
      | Done st \<Rightarrow> iterate (restore_saved model) (modified_weights s) st)"

text \<open>
  \<^verbatim>\<open>static_patch_model\<close> as a scope: the patch is applied before the \<^verbatim>\<open>try\<close>, so an
  exception of the patch leaves the scope unentered and nothing restored. The body
  of the scope reads the patched model and either returns or raises; the
  \<^verbatim>\<open>finally\<close> block runs in both cases, and an exception of its own replaces the
  one of the body.
\<close>

definition static_patch_model ::
  "module \<Rightarrow> store \<Rightarrow> string \<Rightarrow> (lora_model \<times> real) list \<Rightarrow> (string \<rightharpoonup> tensor) option \<Rightarrow>
   (store \<Rightarrow> error option) \<Rightarrow> store outcome" where
  "static_patch_model model st prefix loras cached_weights body =
     (case patch_model model st prefix loras cached_weights of
        Raised e s \<Rightarrow> Raised e (store s)
      | Done s \<Rightarrow>
          (let r = body (store s)
           in case restore model cached_weights s of
                Raised e st' \<Rightarrow> Raised e st'
              | Done st' \<Rightarrow> (case r of None \<Rightarrow> Done st' | Some e \<Rightarrow> Raised e st')))"

section \<open>What a session contributes\<close>

text \<open>
  The contributions of a specification of LoRAs to a model, in the order in which
  the patcher visits them: for each layer whose key starts with the prefix and
  resolves, and each item of its \<^verbatim>\<open>get_parameters\<close>, the parameter key, the tensor
  the parameter name addresses in the resolved module, the weight of the LoRA, the
  scale of the layer and the delta. This is a pure function of the module tree; it
  is what the properties of a session are stated against.
\<close>

type_synonym contribution = "string \<times> addr \<times> real \<times> real \<times> delta"

definition param_contrib :: "string \<Rightarrow> module \<Rightarrow> real \<Rightarrow> real \<Rightarrow> string \<times> delta \<Rightarrow> contribution list" where
  "param_contrib module_key md lora_weight scale item =
     (case item of (param_name, d) \<Rightarrow>
        (case get_parameter md param_name of
           None \<Rightarrow> []
         | Some a \<Rightarrow> [(module_key @ ''.'' @ param_name, a, lora_weight, scale, d)]))"

definition layer_contribs :: "module \<Rightarrow> string \<Rightarrow> real \<Rightarrow> string \<times> lora_layer \<Rightarrow> contribution list" where
  "layer_contribs model prefix lora_weight item =
     (case item of (layer_key, layer) \<Rightarrow>
        (if \<not> startswith layer_key prefix then []
         else (case resolve_lora_key model layer_key prefix of
                 Inl e \<Rightarrow> []
               | Inr (module_key, md) \<Rightarrow>
                   concat (map (param_contrib module_key md lora_weight (layer_scale layer))
                             (get_parameters layer md)))))"

definition lora_contribs :: "module \<Rightarrow> string \<Rightarrow> lora_model \<times> real \<Rightarrow> contribution list" where
  "lora_contribs model prefix item =
     (case item of (lora, lora_weight) \<Rightarrow>
        concat (map (layer_contribs model prefix lora_weight) (layers lora)))"

definition contribs :: "module \<Rightarrow> string \<Rightarrow> (lora_model \<times> real) list \<Rightarrow> contribution list" where
  "contribs model prefix loras = concat (map (lora_contribs model prefix) loras)"

definition touched_keys :: "contribution list \<Rightarrow> string set" where
  "touched_keys cs = fst ` set cs"

text \<open>
  Two properties of the naming of a model that torch provides for the models the
  patcher is used on: a parameter key addresses, from the root, the tensor that was
  patched under it, and no tensor is patched under two keys (no shared weights).
\<close>

definition keys_address :: "module \<Rightarrow> contribution list \<Rightarrow> bool" where
  "keys_address model cs = (\<forall>c \<in> set cs. get_parameter model (fst c) = Some (fst (snd c)))"

definition unshared :: "contribution list \<Rightarrow> bool" where
  "unshared cs = (\<forall>c \<in> set cs. \<forall>c' \<in> set cs. fst (snd c) = fst (snd c') \<longrightarrow> fst c = fst c')"

definition same_tags :: "tensor \<Rightarrow> tensor \<Rightarrow> bool" where
  "same_tags t t' = (shape t = shape t' \<and> dtype t = dtype t' \<and> device t = device t')"

text \<open>
  The invariants of a session against the contributions made so far: every tensor
  of the model keeps its tags, and holds its first value while no contribution has
  landed on it; the two books hold exactly the touched keys, each once, split by
  membership in \<^verbatim>\<open>cached_weights\<close>; every saved value is the first value of its
  parameter.
\<close>

definition inv_vals :: "store \<Rightarrow> session \<Rightarrow> contribution list \<Rightarrow> bool" where
  "inv_vals st0 s cs =
     (\<forall>a. same_tags (store s a) (st0 a)
          \<and> ((\<forall>c \<in> set cs. fst (snd c) \<noteq> a) \<longrightarrow> store s a = st0 a))"

definition inv_keys :: "(string \<rightharpoonup> tensor) \<Rightarrow> session \<Rightarrow> contribution list \<Rightarrow> bool" where
  "inv_keys cw s cs =
     (set (modified_cached_weights s) \<union> fst ` set (modified_weights s) = touched_keys cs
      \<and> distinct (modified_cached_weights s)
      \<and> distinct (map fst (modified_weights s))
      \<and> set (modified_cached_weights s) \<inter> fst ` set (modified_weights s) = {}
      \<and> (\<forall>k \<in> set (modified_cached_weights s). cw k \<noteq> None)
      \<and> (\<forall>k \<in> fst ` set (modified_weights s). cw k = None))"

definition inv_saved :: "module \<Rightarrow> store \<Rightarrow> session \<Rightarrow> bool" where
  "inv_saved model st0 s =
     (\<forall>kv \<in> set (modified_weights s).
        \<exists>a. get_parameter model (fst kv) = Some a \<and> snd kv = to_device (st0 a) CPU)"

definition session_inv ::
  "module \<Rightarrow> (string \<rightharpoonup> tensor) \<Rightarrow> store \<Rightarrow> session \<Rightarrow> contribution list \<Rightarrow> bool" where
  "session_inv model cw st0 s cs =
     (inv_vals st0 s cs \<and> inv_keys cw s cs
      \<and> (keys_address model cs \<and> unshared cs \<longrightarrow> inv_saved model st0 s))"

text \<open>\<^verbatim>\<open>cached_weights\<close> as \<^verbatim>\<open>_patch_model\<close> reads it: \<^verbatim>\<open>None\<close> is the empty dictionary.\<close>

definition cw_of :: "(string \<rightharpoonup> tensor) option \<Rightarrow> (string \<rightharpoonup> tensor)" where
  "cw_of cached_weights = (case cached_weights of None \<Rightarrow> Map.empty | Some c \<Rightarrow> c)"

text \<open>
  What \<^verbatim>\<open>cached_weights\<close> is documented to be, a copy of the state dictionary of
  the model, for the keys a session touches: the cached tensor has the shape and
  the elements of the parameter. \<open>cache_fits\<close> asks for the shape and the dtype
  only, so that \<^verbatim>\<open>copy_\<close> neither broadcasts nor casts.
\<close>

definition cache_agrees ::
  "module \<Rightarrow> store \<Rightarrow> (string \<rightharpoonup> tensor) option \<Rightarrow> contribution list \<Rightarrow> bool" where
  "cache_agrees model st cached_weights cs =
     (\<forall>k \<in> touched_keys cs. \<forall>t a.
        cw_of cached_weights k = Some t \<longrightarrow> get_parameter model k = Some a \<longrightarrow>
        shape t = shape (st a) \<and> elems t = elems (st a))"


text \<open>The value of a parameter of the model, by key.\<close>

definition param_value :: "module \<Rightarrow> store \<Rightarrow> string \<Rightarrow> tensor option" where
  "param_value model st param_key = map_option st (get_parameter model param_key)"

section \<open>A small model\<close>

text \<open>
  The scenario of the specification, on two by two tensors: a module \<^verbatim>\<open>foo.bar_baz\<close>
  with a weight of zeros, and a layer \<^verbatim>\<open>lora_unet_foo_bar_baz\<close> of rank 4 and
  alpha 4 whose delta is all ones.
\<close>

definition ex_leaf :: module where
  "ex_leaf = Module [(''weight'', 0)] []"

definition ex_model :: module where
  "ex_model = Module [] [(''foo'', Module [] [(''bar_baz'', ex_leaf)])]"

definition ex_zeros :: tensor where
  "ex_zeros = \<lparr>shape = [2, 2], dtype = Float16, device = CUDA, elems = [0, 0, 0, 0]\<rparr>"

definition ex_ones :: tensor where
  "ex_ones = \<lparr>shape = [2, 2], dtype = Float32, device = CUDA, elems = [1, 1, 1, 1]\<rparr>"

definition ex_store :: store where
  "ex_store = (\<lambda>a. ex_zeros)"

definition ex_layer :: lora_layer where
  "ex_layer = \<lparr>alpha = Some 4, rank = Some 4, get_parameters = (\<lambda>m. [(''weight'', Fresh ex_ones)])\<rparr>"

definition ex_lora :: lora_model where
  "ex_lora = \<lparr>layers = [(''lora_unet_foo_bar_baz'', ex_layer)]\<rparr>"

definition ex_session :: session where
  "ex_session = \<lparr>store = ex_store, modified_cached_weights = [], modified_weights = [],
     layer_tensors = Map.empty\<rparr>"

text \<open>
  Two LoRAs that carry the same layer, with weights one half and two, the session
  they leave, and two caches: one that holds the value of the weight, one that
  holds another value.
\<close>

definition ex_loras :: "(lora_model \<times> real) list" where
  "ex_loras = [(ex_lora, 1/2), (ex_lora, 2)]"

definition ex_key :: string where
  "ex_key = ''foo.bar_baz.weight''"

definition ex_patched :: session where
  "ex_patched = \<lparr>store = ex_store(0 := ex_zeros\<lparr>elems := [5/2, 5/2, 5/2, 5/2]\<rparr>),
     modified_cached_weights = [],
     modified_weights = [(ex_key, ex_zeros\<lparr>device := CPU\<rparr>)],
     layer_tensors = Map.empty\<rparr>"

definition ex_cached :: "(string \<rightharpoonup> tensor) option" where
  "ex_cached = Some [ex_key \<mapsto> ex_zeros\<lparr>device := CPU\<rparr>]"

definition ex_patched_cached :: session where
  "ex_patched_cached = \<lparr>store = ex_store(0 := ex_zeros\<lparr>elems := [5/2, 5/2, 5/2, 5/2]\<rparr>),
     modified_cached_weights = [ex_key],
     modified_weights = [],
     layer_tensors = Map.empty\<rparr>"

definition ex_stale :: "(string \<rightharpoonup> tensor) option" where
  "ex_stale = Some [ex_key \<mapsto> ex_zeros\<lparr>device := CPU, elems := [7, 7, 7, 7]\<rparr>]"

text \<open>
  What processing one layer does to the tensors of the layers: every delta of
  \<^verbatim>\<open>get_parameters\<close> is scaled in place, in the order of the items.
\<close>

definition scale_deltas :: "real \<Rightarrow> (string \<times> delta) list \<Rightarrow> (addr \<rightharpoonup> tensor) \<Rightarrow> (addr \<rightharpoonup> tensor)" where
  "scale_deltas c items lt = foldl (\<lambda>lt item. scale_delta c lt (snd item)) lt items"

text \<open>
  Tied weights: two modules \<^verbatim>\<open>a\<close> and \<^verbatim>\<open>b\<close> whose weight is one tensor, a LoRA with
  a layer for each, and a second LoRA with a layer for \<^verbatim>\<open>a\<close>.
\<close>

definition ex_tied_model :: module where
  "ex_tied_model = Module [] [(''a'', ex_leaf), (''b'', ex_leaf)]"

definition ex_tied_loras :: "(lora_model \<times> real) list" where
  "ex_tied_loras =
     [(\<lparr>layers = [(''lora_unet_a'', ex_layer), (''lora_unet_b'', ex_layer)]\<rparr>, 1),
      (\<lparr>layers = [(''lora_unet_a'', ex_layer)]\<rparr>, 1)]"

definition ex_tied_patched :: session where
  "ex_tied_patched = \<lparr>store = ex_store(0 := ex_zeros\<lparr>elems := [3, 3, 3, 3]\<rparr>),
     modified_cached_weights = [],
     modified_weights =
       [(''a.weight'', ex_zeros\<lparr>device := CPU\<rparr>),
        (''b.weight'', ex_zeros\<lparr>device := CPU, elems := [1, 1, 1, 1]\<rparr>)],
     layer_tensors = Map.empty\<rparr>"





text \<open>
  A layer that hands out a tensor it owns, at address 7, and the session that
  patching with it at weight one half leaves.
\<close>

definition ex_stored_layer :: lora_layer where
  "ex_stored_layer =
     \<lparr>alpha = Some 4, rank = Some 4, get_parameters = (\<lambda>m. [(''weight'', Stored 7 ex_ones)])\<rparr>"

definition ex_stored_loras :: "(lora_model \<times> real) list" where
  "ex_stored_loras = [(\<lparr>layers = [(''lora_unet_foo_bar_baz'', ex_stored_layer)]\<rparr>, 1/2)]"

definition ex_stored_patched :: session where
  "ex_stored_patched = \<lparr>store = ex_store(0 := ex_zeros\<lparr>elems := [1/2, 1/2, 1/2, 1/2]\<rparr>),
     modified_cached_weights = [],
     modified_weights = [(ex_key, ex_zeros\<lparr>device := CPU\<rparr>)],
     layer_tensors = [7 \<mapsto> ex_ones\<lparr>elems := [1/2, 1/2, 1/2, 1/2]\<rparr>]\<rparr>"

section \<open>Properties of key resolution\<close>

lemma split_on_nonempty: "split_on c s \<noteq> []"
  by (induction s) (auto split: list.splits)

lemma resolve_loop_spec_descend:
  "(case resolve_loop m (concat (map (\<lambda>t. ''.'' @ t) path)) acc ts of
      (m1, module_key, submodule_name) \<Rightarrow>
        (case get_submodule m1 submodule_name of
           None \<Rightarrow> None
         | Some m' \<Rightarrow> Some (module_key @ ''.'' @ submodule_name, m')))
   = map_option (\<lambda>(p, m'). (concat (map (\<lambda>t. ''.'' @ t) p), m')) (spec_descend m path acc ts)"
proof (induction ts arbitrary: m path acc)
  case Nil
  show ?case by (simp split: option.splits)
next
  case (Cons t ts)
  show ?case
  proof (cases "get_submodule m acc")
    case None
    then show ?thesis using Cons.IH [of m path "acc @ ''_'' @ t"] by simp
  next
    case (Some m')
    then show ?thesis using Cons.IH [of m' "path @ [acc]" t] by simp
  qed
qed

text \<open>
  C5: for a flat key (no dot) that starts with the prefix, the source's resolution
  is the greedy descent of the specification: prefix stripped, remainder split on
  underscores, a resolved token opens a new one, a failed one is extended, one
  final descent after the loop, and the key is the dot-joined path without its
  leading dots.
\<close>

theorem resolve_lora_key_greedy:
  assumes "CHR ''.'' \<notin> set lora_key" and "startswith lora_key prefix"
  shows "resolve_lora_key model lora_key prefix = spec_resolve model lora_key prefix"
proof -
  obtain p ps where sp: "split_on CHR ''_'' (drop (length prefix) lora_key) = p # ps"
    using split_on_nonempty by (cases "split_on CHR ''_'' (drop (length prefix) lora_key)") auto
  have h: "(case resolve_loop model [] p ps of
      (m1, module_key, submodule_name) \<Rightarrow>
        (case get_submodule m1 submodule_name of
           None \<Rightarrow> None
         | Some m' \<Rightarrow> Some (module_key @ ''.'' @ submodule_name, m')))
   = map_option (\<lambda>(p, m'). (concat (map (\<lambda>t. ''.'' @ t) p), m')) (spec_descend model [] p ps)"
    using resolve_loop_spec_descend [of model "[]" p ps] by simp
  obtain m1 module_key submodule_name
    where rl: "resolve_loop model [] p ps = (m1, module_key, submodule_name)"
    by (cases "resolve_loop model [] p ps") auto
  show ?thesis
  proof (cases "spec_descend model [] p ps")
    case None
    with h rl have "get_submodule m1 submodule_name = None"
      by (simp split: option.splits)
    with None rl assms show ?thesis
      by (simp add: resolve_lora_key_def spec_resolve_def sp)
  next
    case (Some r)
    obtain path m' where r: "r = (path, m')" by (cases r) auto
    from h rl Some r have "get_submodule m1 submodule_name = Some m'"
      and "module_key @ ''.'' @ submodule_name = concat (map (\<lambda>t. ''.'' @ t) path)"
      by (auto split: option.splits)
    with Some r rl assms show ?thesis
      by (simp add: resolve_lora_key_def spec_resolve_def spec_canonical_key_def sp)
  qed
qed

text \<open>
  C6: the scale of a layer is \<open>alpha / rank\<close> when both are present and non-zero,
  and 1 in every other case.
\<close>

theorem layer_scale_cases:
  "layer_scale layer =
     (case (alpha layer, rank layer) of
        (Some a, Some r) \<Rightarrow> if a = 0 then 1 else if r = 0 then 1 else a / real_of_int r
      | (Some a, None) \<Rightarrow> 1
      | (None, _) \<Rightarrow> 1)"
  by (simp add: layer_scale_def truthy_real_def truthy_int_def split: option.splits)

text \<open>
  C10: a key that contains a dot fails the entry assertion of the resolution,
  whatever the prefix and the model.
\<close>

theorem resolve_lora_key_dot:
  "CHR ''.'' \<in> set lora_key \<Longrightarrow> resolve_lora_key model lora_key prefix = Inl AssertionError"
  by (simp add: resolve_lora_key_def)

theorem resolve_lora_key_greedy_witness:
  "CHR ''.'' \<notin> set ''lora_unet_foo_bar_baz''
   \<and> startswith ''lora_unet_foo_bar_baz'' ''lora_unet_''
   \<and> resolve_lora_key ex_model ''lora_unet_foo_bar_baz'' ''lora_unet_''
       = spec_resolve ex_model ''lora_unet_foo_bar_baz'' ''lora_unet_''
   \<and> spec_resolve ex_model ''lora_unet_foo_bar_baz'' ''lora_unet_'' = Inr (''foo.bar_baz'', ex_leaf)"
  using resolve_lora_key_greedy [of "''lora_unet_foo_bar_baz''" "''lora_unet_''" ex_model]
  by (simp add: startswith_def spec_resolve_def spec_canonical_key_def lstrip_def
        get_submodule_def ex_model_def)

theorem resolve_lora_key_dot_witness:
  "CHR ''.'' \<in> set ''lora_unet_foo.bar''
   \<and> resolve_lora_key ex_model ''lora_unet_foo.bar'' ''lora_unet_'' = Inl AssertionError"
  using resolve_lora_key_dot [of "''lora_unet_foo.bar''" ex_model "''lora_unet_''"]
  by simp

section \<open>Properties of one patched parameter\<close>

lemma save_original_store: "store (save_original cw k p s) = store s"
  by (simp add: save_original_def)

lemma save_original_layer_tensors: "layer_tensors (save_original cw k p s) = layer_tensors s"
  by (simp add: save_original_def)

lemma current_save_original: "current (save_original cw k p s) d = current s d"
  by (simp add: current_def save_original_layer_tensors)

lemma current_Fresh: "current s (Fresh t) = t"
  by (simp add: current_def current_in_def)

lemma scale_in_place_store: "store (scale_in_place d c s) = store s"
  by (simp add: scale_in_place_def)

lemma scale_in_place_modified_weights:
  "modified_weights (scale_in_place d c s) = modified_weights s"
  by (simp add: scale_in_place_def)

lemma scale_in_place_modified_cached_weights:
  "modified_cached_weights (scale_in_place d c s) = modified_cached_weights s"
  by (simp add: scale_in_place_def)

lemma scale_in_place_layer_tensors:
  "layer_tensors (scale_in_place d c s) = scale_delta c (layer_tensors s) d"
  by (simp add: scale_in_place_def)

lemma iadd_same_shape:
  "shape t = shape p \<Longrightarrow> iadd p t = Inr (p\<lparr>elems := map2 (+) (elems p) (elems t)\<rparr>)"
  by (simp add: iadd_def)

lemma iadd_tags: "iadd p t = Inr p' \<Longrightarrow> same_tags p' p"
  by (auto simp: iadd_def same_tags_def split: if_splits option.splits)

text \<open>
  The two in-place operations on sources of another shape: a row of two elements
  is copied into both rows of a two by two tensor, and four elements in a row
  cannot be added to it, which is why line 139 has to reshape.
\<close>

lemma copy_into_broadcasts:
  "copy_into ex_zeros \<lparr>shape = [2], dtype = Float16, device = CPU, elems = [7, 8]\<rparr>
     = Inr (ex_zeros\<lparr>elems := [7, 8, 7, 8]\<rparr>)"
  by (simp add: copy_into_def broadcast_def parts_def ex_zeros_def upt_rec numeral_2_eq_2)

lemma iadd_unreshaped_raises:
  "iadd ex_zeros (ex_ones\<lparr>shape := [4]\<rparr>) = Inl ShapeError"
  by (simp add: iadd_def broadcast_def parts_def ex_zeros_def ex_ones_def upt_rec numeral_2_eq_2)

lemma reshape_same_numel:
  "numel t = prod_list shp \<Longrightarrow> reshape t shp = Inr (t\<lparr>shape := shp\<rparr>)"
  by (simp add: reshape_def)

lemma reshape_other_numel:
  "numel t \<noteq> prod_list shp \<Longrightarrow> reshape t shp = Inl ShapeError"
  by (auto simp: reshape_def)

text \<open>
  C7: when the shape of a delta differs from the shape of the parameter and the
  element counts agree, line 139 reshapes the delta to the shape of the parameter
  and the patch of that parameter completes, the reshaped and scaled delta added in
  place; when the counts differ, the patch raises the shape error and has written
  to no tensor, neither of the model nor of a layer.
\<close>

theorem patch_param_shape_mismatch:
  assumes "get_parameter md param_name = Some a"
    and "shape (store s a) \<noteq> shape (current s d)"
  shows "(numel (current s d) = numel (store s a) \<longrightarrow>
            reshape (current s d) (shape (store s a))
              = Inr ((current s d)\<lparr>shape := shape (store s a)\<rparr>)
            \<and> (\<exists>s'. patch_param cw module_key md w sc dt (param_name, d) s = Done s'
                 \<and> iadd (store s a)
                      (to_dtype (imul ((current s d)\<lparr>shape := shape (store s a)\<rparr>) (w * sc)) dt)
                    = Inr (store s' a)))
       \<and> (numel (current s d) \<noteq> numel (store s a) \<longrightarrow>
            (\<exists>s'. patch_param cw module_key md w sc dt (param_name, d) s = Raised ShapeError s'
                 \<and> store s' = store s \<and> layer_tensors s' = layer_tensors s))"
proof (intro conjI impI)
  assume n: "numel (current s d) = numel (store s a)"
  then have "numel (current s d) = prod_list (shape (store s a))" by (simp add: numel_def)
  then show r: "reshape (current s d) (shape (store s a))
              = Inr ((current s d)\<lparr>shape := shape (store s a)\<rparr>)"
    by (rule reshape_same_numel)
  let ?w = "to_dtype (imul ((current s d)\<lparr>shape := shape (store s a)\<rparr>) (w * sc)) dt"
  have "shape ?w = shape (store s a)" by (simp add: to_dtype_def imul_def)
  from iadd_same_shape [OF this]
  have i: "iadd (store s a) ?w = Inr ((store s a)\<lparr>elems := map2 (+) (elems (store s a)) (elems ?w)\<rparr>)" .
  show "\<exists>s'. patch_param cw module_key md w sc dt (param_name, d) s = Done s'
                 \<and> iadd (store s a) ?w = Inr (store s' a)"
    using assms r i
    by (simp add: patch_param_def Let_def save_original_store current_save_original
          scale_in_place_store)
next
  assume "numel (current s d) \<noteq> numel (store s a)"
  then have "numel (current s d) \<noteq> prod_list (shape (store s a))" by (simp add: numel_def)
  then have r: "reshape (current s d) (shape (store s a)) = Inl ShapeError"
    by (rule reshape_other_numel)
  show "\<exists>s'. patch_param cw module_key md w sc dt (param_name, d) s = Raised ShapeError s'
                 \<and> store s' = store s \<and> layer_tensors s' = layer_tensors s"
    using assms r
    by (simp add: patch_param_def Let_def save_original_store current_save_original
          save_original_layer_tensors)
qed

theorem patch_param_shape_mismatch_witness:
  "get_parameter ex_leaf ''weight'' = Some 0
   \<and> shape (store ex_session 0) \<noteq> shape (current ex_session (Fresh (ex_ones\<lparr>shape := [4]\<rparr>)))
   \<and> numel (current ex_session (Fresh (ex_ones\<lparr>shape := [4]\<rparr>))) = numel (store ex_session 0)
   \<and> reshape (ex_ones\<lparr>shape := [4]\<rparr>) [2, 2] = Inr ex_ones
   \<and> (\<exists>s'. patch_param Map.empty ''foo.bar_baz'' ex_leaf (1/2) 1 Float16
              (''weight'', Fresh (ex_ones\<lparr>shape := [4]\<rparr>)) ex_session = Done s'
          \<and> elems (store s' 0) = [1/2, 1/2, 1/2, 1/2] \<and> shape (store s' 0) = [2, 2])"
proof -
  have g: "get_parameter ex_leaf ''weight'' = Some 0"
    by (simp add: get_parameter_def rpartition_def get_submodule_def ex_leaf_def)
  have sh: "shape (store ex_session 0) \<noteq> shape (current ex_session (Fresh (ex_ones\<lparr>shape := [4]\<rparr>)))"
    by (simp add: current_Fresh ex_session_def ex_store_def ex_zeros_def ex_ones_def)
  have n: "numel (current ex_session (Fresh (ex_ones\<lparr>shape := [4]\<rparr>))) = numel (store ex_session 0)"
    by (simp add: current_Fresh numel_def ex_session_def ex_store_def ex_zeros_def ex_ones_def)
  have r: "reshape (ex_ones\<lparr>shape := [4]\<rparr>) [2, 2] = Inr ex_ones"
    by (simp add: reshape_def numel_def ex_ones_def)
  from patch_param_shape_mismatch [OF g sh, of Map.empty "''foo.bar_baz''" "1/2" 1 Float16] n
  obtain s' where d: "patch_param Map.empty ''foo.bar_baz'' ex_leaf (1/2) 1 Float16
              (''weight'', Fresh (ex_ones\<lparr>shape := [4]\<rparr>)) ex_session = Done s'"
    and i: "iadd (store ex_session 0)
              (to_dtype (imul ((current ex_session (Fresh (ex_ones\<lparr>shape := [4]\<rparr>)))
                 \<lparr>shape := shape (store ex_session 0)\<rparr>) (1/2 * 1)) Float16)
            = Inr (store s' 0)"
    by blast
  from i have "store s' 0 = ex_zeros\<lparr>elems := [1/2, 1/2, 1/2, 1/2]\<rparr>"
    by (simp add: current_Fresh iadd_def imul_def to_dtype_def ex_session_def ex_store_def ex_zeros_def ex_ones_def)
  then have e: "elems (store s' 0) = [1/2, 1/2, 1/2, 1/2] \<and> shape (store s' 0) = [2, 2]"
    by (simp add: ex_zeros_def)
  from d e have x: "\<exists>s'. patch_param Map.empty ''foo.bar_baz'' ex_leaf (1/2) 1 Float16
              (''weight'', Fresh (ex_ones\<lparr>shape := [4]\<rparr>)) ex_session = Done s'
          \<and> elems (store s' 0) = [1/2, 1/2, 1/2, 1/2] \<and> shape (store s' 0) = [2, 2]"
    by blast
  show ?thesis
    by (intro conjI) (rule g sh n r x)+
qed

section \<open>Loops and the invariants of a session\<close>

lemma iterate_state_inv:
  assumes "\<And>x s. P s \<Longrightarrow> P (state_of (f x s))" and "P s"
  shows "P (state_of (iterate f xs s))"
  using assms(2)
proof (induction xs arbitrary: s)
  case Nil
  then show ?case by simp
next
  case (Cons x xs)
  from assms(1) [OF Cons.prems, of x] Cons.IH show ?case
    by (cases "f x s") auto
qed

lemma iterate_Done_acc:
  assumes "\<And>x s s' C. I s C \<Longrightarrow> f x s = Done s' \<Longrightarrow> I s' (C @ g x)"
    and "I s C" and "iterate f xs s = Done s'"
  shows "I s' (C @ concat (map g xs))"
  using assms(2,3)
proof (induction xs arbitrary: s C)
  case Nil
  then show ?case by simp
next
  case (Cons x xs)
  show ?case
  proof (cases "f x s")
    case (Done s1)
    with Cons.prems have "iterate f xs s1 = Done s'" by simp
    from Cons.IH [OF assms(1) [OF Cons.prems(1) Done] this] show ?thesis by simp
  next
    case (Raised e s1)
    with Cons.prems show ?thesis by simp
  qed
qed

lemma same_tags_refl: "same_tags t t"
  by (simp add: same_tags_def)

lemma patch_param_Some:
  assumes "get_parameter md pn = Some a"
  shows "patch_param cw mk md w sc dt (pn, d) s =
     (case (if shape (store s a) \<noteq> shape (current s d)
            then reshape (current s d) (shape (store s a)) else Inr (current s d)) of
        Inl e \<Rightarrow> Raised e (save_original cw (mk @ ''.'' @ pn) (store s a) s)
      | Inr x \<Rightarrow>
          (case iadd (store s a) (to_dtype (imul x (w * sc)) dt) of
             Inl e \<Rightarrow>
               Raised e (scale_in_place d (w * sc) (save_original cw (mk @ ''.'' @ pn) (store s a) s))
           | Inr p' \<Rightarrow>
               Done ((scale_in_place d (w * sc) (save_original cw (mk @ ''.'' @ pn) (store s a) s))
                       \<lparr>store := (store s)(a := p')\<rparr>)))"
  using assms
  by (simp add: patch_param_def Let_def save_original_store current_save_original
        scale_in_place_store split: sum.splits)

lemma patch_param_Done:
  assumes "patch_param cw mk md w sc dt (pn, d) s = Done s'"
  obtains a p' where "get_parameter md pn = Some a"
    and "same_tags p' (store s a)"
    and "store s' = (store s)(a := p')"
    and "modified_weights s' = modified_weights (save_original cw (mk @ ''.'' @ pn) (store s a) s)"
    and "modified_cached_weights s'
           = modified_cached_weights (save_original cw (mk @ ''.'' @ pn) (store s a) s)"
    and "layer_tensors s' = scale_delta (w * sc) (layer_tensors s) d"
proof -
  from assms obtain a where a: "get_parameter md pn = Some a"
    by (cases "get_parameter md pn") (simp_all add: patch_param_def)
  let ?s1 = "save_original cw (mk @ ''.'' @ pn) (store s a) s"
  let ?r = "if shape (store s a) \<noteq> shape (current s d)
            then reshape (current s d) (shape (store s a)) else Inr (current s d)"
  from assms obtain x where x: "?r = Inr x"
    by (cases ?r) (simp_all add: patch_param_Some [OF a])
  from assms x obtain p' where i: "iadd (store s a) (to_dtype (imul x (w * sc)) dt) = Inr p'"
    by (cases "iadd (store s a) (to_dtype (imul x (w * sc)) dt)")
       (simp_all add: patch_param_Some [OF a])
  from assms x i have s': "s' = (scale_in_place d (w * sc) ?s1)\<lparr>store := (store s)(a := p')\<rparr>"
    by (simp add: patch_param_Some [OF a])
  show ?thesis
  proof (rule that [OF a iadd_tags [OF i]])
    show "store s' = (store s)(a := p')" by (simp add: s')
    show "modified_weights s' = modified_weights ?s1"
      by (simp add: s' scale_in_place_modified_weights)
    show "modified_cached_weights s' = modified_cached_weights ?s1"
      by (simp add: s' scale_in_place_modified_cached_weights)
    show "layer_tensors s' = scale_delta (w * sc) (layer_tensors s) d"
      by (simp add: s' scale_in_place_layer_tensors save_original_layer_tensors)
  qed
qed

lemma patch_param_Raised:
  assumes "patch_param cw mk md w sc dt item s = Raised e s'"
  shows "store s' = store s"
proof -
  obtain pn d where item: "item = (pn, d)" by (cases item) auto
  show ?thesis
  proof (cases "get_parameter md pn")
    case None
    with assms item show ?thesis by (simp add: patch_param_def)
  next
    case (Some a)
    let ?r = "if shape (store s a) \<noteq> shape (current s d)
            then reshape (current s d) (shape (store s a)) else Inr (current s d)"
    show ?thesis
    proof (cases ?r)
      case (Inl e')
      with assms item have "s' = save_original cw (mk @ ''.'' @ pn) (store s a) s"
        by (simp add: patch_param_Some [OF Some])
      then show ?thesis by (simp add: save_original_store)
    next
      case (Inr x)
      with assms item
      have "s' = scale_in_place d (w * sc) (save_original cw (mk @ ''.'' @ pn) (store s a) s)"
        by (cases "iadd (store s a) (to_dtype (imul x (w * sc)) dt)")
           (simp_all add: patch_param_Some [OF Some])
      then show ?thesis by (simp add: save_original_store scale_in_place_store)
    qed
  qed
qed

lemma patch_param_tags:
  assumes "\<forall>a. same_tags (store s a) (st0 a)"
  shows "\<forall>a. same_tags (store (state_of (patch_param cw mk md w sc dt item s)) a) (st0 a)"
proof (cases "patch_param cw mk md w sc dt item s")
  case (Raised e s')
  from patch_param_Raised [OF this] Raised assms show ?thesis by simp
next
  case (Done s')
  obtain pn d where item: "item = (pn, d)" by (cases item) auto
  from Done item have "patch_param cw mk md w sc dt (pn, d) s = Done s'" by simp
  then obtain a p' where t: "same_tags p' (store s a)" and st: "store s' = (store s)(a := p')"
    by (rule patch_param_Done)
  from t assms have "same_tags p' (st0 a)" by (auto simp: same_tags_def)
  with Done st assms show ?thesis by simp
qed

lemma vals_step:
  assumes "inv_vals st0 s C" and "patch_param cw mk md w sc dt (pn, d) s = Done s'"
  shows "inv_vals st0 s' (C @ param_contrib mk md w sc (pn, d))"
proof -
  from assms(2) obtain a p' where a: "get_parameter md pn = Some a"
    and t: "same_tags p' (store s a)" and st: "store s' = (store s)(a := p')"
    by (rule patch_param_Done)
  have pc: "param_contrib mk md w sc (pn, d) = [(mk @ ''.'' @ pn, a, w, sc, d)]"
    using a by (simp add: param_contrib_def)
  from assms(1) have tags: "\<forall>b. same_tags (store s b) (st0 b)"
    and un: "\<forall>b. (\<forall>c \<in> set C. fst (snd c) \<noteq> b) \<longrightarrow> store s b = st0 b"
    by (simp_all add: inv_vals_def)
  from t tags have t0: "same_tags p' (st0 a)" by (auto simp: same_tags_def)
  show ?thesis
    unfolding inv_vals_def
  proof (intro allI conjI impI)
    fix b
    show "same_tags (store s' b) (st0 b)" using tags t0 by (simp add: st)
  next
    fix b
    assume n: "\<forall>c \<in> set (C @ param_contrib mk md w sc (pn, d)). fst (snd c) \<noteq> b"
    then have "b \<noteq> a" by (simp add: pc)
    moreover from n have "\<forall>c \<in> set C. fst (snd c) \<noteq> b" by simp
    with un have "store s b = st0 b" by blast
    ultimately show "store s' b = st0 b" by (simp add: st)
  qed
qed

lemma touched_keys_append: "touched_keys (cs @ ds) = touched_keys cs \<union> touched_keys ds"
  by (auto simp: touched_keys_def)

lemma save_original_keys:
  assumes "inv_keys cw s C"
  shows "inv_keys cw (save_original cw k p s) (C @ [(k, a, w, sc, d)])"
proof (cases "k \<in> set (modified_cached_weights s) \<or> k \<in> fst ` set (modified_weights s)")
  case True
  with assms have "k \<in> touched_keys C" by (auto simp: inv_keys_def)
  then have "touched_keys (C @ [(k, a, w, sc, d)]) = touched_keys C"
    by (auto simp: touched_keys_def)
  with True assms show ?thesis by (auto simp: inv_keys_def save_original_def)
next
  case False
  have tk: "touched_keys (C @ [(k, a, w, sc, d)]) = insert k (touched_keys C)"
    by (auto simp: touched_keys_def)
  show ?thesis
  proof (cases "cw k")
    case None
    with False assms tk show ?thesis
      by (auto simp: inv_keys_def save_original_def)
  next
    case (Some t)
    with False assms tk show ?thesis
      by (auto simp: inv_keys_def save_original_def)
  qed
qed

lemma keys_step:
  assumes "inv_keys cw s C" and "patch_param cw mk md w sc dt (pn, d) s = Done s'"
  shows "inv_keys cw s' (C @ param_contrib mk md w sc (pn, d))"
proof -
  from assms(2) obtain a p' where a: "get_parameter md pn = Some a"
    and mw: "modified_weights s' = modified_weights (save_original cw (mk @ ''.'' @ pn) (store s a) s)"
    and mc: "modified_cached_weights s'
               = modified_cached_weights (save_original cw (mk @ ''.'' @ pn) (store s a) s)"
    by (rule patch_param_Done)
  have pc: "param_contrib mk md w sc (pn, d) = [(mk @ ''.'' @ pn, a, w, sc, d)]"
    using a by (simp add: param_contrib_def)
  from save_original_keys [OF assms(1), of "mk @ ''.'' @ pn" "store s a" a w sc d]
  show ?thesis by (simp add: mw mc pc inv_keys_def)
qed

lemma keys_address_append: "keys_address model (cs @ ds) \<Longrightarrow> keys_address model cs"
  by (simp add: keys_address_def)

lemma unshared_append: "unshared (cs @ ds) \<Longrightarrow> unshared cs"
  by (simp add: unshared_def)

lemma untouched_address:
  assumes "inv_vals st0 s C" and "\<forall>c \<in> set C. fst (snd c) \<noteq> a"
  shows "store s a = st0 a"
  using assms by (simp add: inv_vals_def)

lemma unshared_last:
  assumes "unshared (C @ [(k, a, w, sc, d)])" and "c \<in> set C" and "fst (snd c) = a"
  shows "fst c = k"
proof -
  have "c \<in> set (C @ [(k, a, w, sc, d)])" and "(k, a, w, sc, d) \<in> set (C @ [(k, a, w, sc, d)])"
    using assms(2) by simp_all
  with assms(1) have "fst (snd c) = fst (snd (k, a, w, sc, d)) \<longrightarrow> fst c = fst (k, a, w, sc, d)"
    unfolding unshared_def by blast
  with assms(3) show ?thesis by simp
qed

lemma keys_address_last:
  assumes "keys_address model (C @ [(k, a, w, sc, d)])"
  shows "get_parameter model k = Some a"
proof -
  have "(k, a, w, sc, d) \<in> set (C @ [(k, a, w, sc, d)])" by simp
  with assms have "get_parameter model (fst (k, a, w, sc, d)) = Some (fst (snd (k, a, w, sc, d)))"
    unfolding keys_address_def by blast
  then show ?thesis by simp
qed

lemma inv_saved_snoc:
  assumes "inv_saved model st0 s" and "get_parameter model k = Some a"
    and "modified_weights s' = modified_weights s @ [(k, to_device (st0 a) CPU)]"
  shows "inv_saved model st0 s'"
  unfolding inv_saved_def
proof
  fix kv assume "kv \<in> set (modified_weights s')"
  with assms(3) have "kv \<in> set (modified_weights s) \<or> kv = (k, to_device (st0 a) CPU)" by auto
  then show "\<exists>b. get_parameter model (fst kv) = Some b \<and> snd kv = to_device (st0 b) CPU"
  proof
    assume "kv \<in> set (modified_weights s)"
    with assms(1) show ?thesis unfolding inv_saved_def by blast
  next
    assume "kv = (k, to_device (st0 a) CPU)"
    with assms(2) show ?thesis by simp
  qed
qed

lemma saved_step:
  assumes "inv_vals st0 s C" and "inv_keys cw s C" and "inv_saved model st0 s"
    and ka: "keys_address model (C @ param_contrib mk md w sc (pn, d))"
    and us: "unshared (C @ param_contrib mk md w sc (pn, d))"
    and "patch_param cw mk md w sc dt (pn, d) s = Done s'"
  shows "inv_saved model st0 s'"
proof -
  from assms(6) obtain a p' where a: "get_parameter md pn = Some a"
    and mw': "modified_weights s' = modified_weights (save_original cw (mk @ ''.'' @ pn) (store s a) s)"
    by (rule patch_param_Done)
  define k where "k = mk @ ''.'' @ pn"
  have pc: "param_contrib mk md w sc (pn, d) = [(k, a, w, sc, d)]"
    using a by (simp add: param_contrib_def k_def)
  have s'k: "modified_weights s' = modified_weights (save_original cw k (store s a) s)"
    by (simp add: mw' k_def)
  show ?thesis
  proof (cases "k \<notin> set (modified_cached_weights s) \<and> k \<notin> fst ` set (modified_weights s) \<and> cw k = None")
    case False
    then have "modified_weights s' = modified_weights s"
      unfolding s'k by (auto simp: save_original_def)
    with assms(3) show ?thesis by (simp add: inv_saved_def)
  next
    case True
    then have mw: "modified_weights s' = modified_weights s @ [(k, to_device (store s a) CPU)]"
      unfolding s'k by (simp add: save_original_def)
    from True assms(2) have nk: "k \<notin> touched_keys C" unfolding inv_keys_def by blast
    have "\<forall>c \<in> set C. fst (snd c) \<noteq> a"
    proof
      fix c assume c: "c \<in> set C"
      show "fst (snd c) \<noteq> a"
      proof
        assume "fst (snd c) = a"
        with us c have "fst c = k" unfolding pc by (rule unshared_last)
        with c nk show False by (auto simp: touched_keys_def)
      qed
    qed
    from untouched_address [OF assms(1) this] have eq: "store s a = st0 a" .
    from ka have "get_parameter model k = Some a" unfolding pc by (rule keys_address_last)
    with assms(3) show ?thesis using mw unfolding eq by (rule inv_saved_snoc)
  qed
qed

lemma session_step:
  assumes "session_inv model cw st0 s C" and "patch_param cw mk md w sc dt item s = Done s'"
  shows "session_inv model cw st0 s' (C @ param_contrib mk md w sc item)"
proof -
  obtain pn d where item: "item = (pn, d)" by (cases item) auto
  from assms(1) have v: "inv_vals st0 s C" and k: "inv_keys cw s C"
    and sv: "keys_address model C \<and> unshared C \<longrightarrow> inv_saved model st0 s"
    by (auto simp: session_inv_def)
  from assms(2) item have d: "patch_param cw mk md w sc dt (pn, d) s = Done s'" by simp
  have "inv_saved model st0 s'"
    if "keys_address model (C @ param_contrib mk md w sc (pn, d))"
      and "unshared (C @ param_contrib mk md w sc (pn, d))"
    using saved_step [OF v k _ that d] sv keys_address_append [OF that(1)] unshared_append [OF that(2)]
    by blast
  with vals_step [OF v d] keys_step [OF k d] show ?thesis
    by (simp add: session_inv_def item)
qed

lemma session_layer:
  assumes "session_inv model cw st0 s C" and "patch_layer cw model prefix w item s = Done s'"
  shows "session_inv model cw st0 s' (C @ layer_contribs model prefix w item)"
proof -
  obtain layer_key layer where item: "item = (layer_key, layer)" by (cases item) auto
  show ?thesis
  proof (cases "startswith layer_key prefix")
    case False
    with assms item show ?thesis by (simp add: patch_layer_def layer_contribs_def)
  next
    case True
    show ?thesis
    proof (cases "resolve_lora_key model layer_key prefix")
      case (Inl e)
      with assms item True show ?thesis by (simp add: patch_layer_def)
    next
      case (Inr r)
      obtain mk md where r: "r = (mk, md)" by (cases r) auto
      show ?thesis
      proof (cases "map_of (parameters md) ''weight''")
        case None
        with assms item True Inr r show ?thesis by (simp add: patch_layer_def)
      next
        case (Some wa)
        with assms(2) item True Inr r
        have it: "iterate (patch_param cw mk md w (layer_scale layer) (dtype (store s wa)))
                (get_parameters layer md) s = Done s'"
          by (simp add: patch_layer_def)
        have "session_inv model cw st0 s'
                (C @ concat (map (param_contrib mk md w (layer_scale layer)) (get_parameters layer md)))"
          by (rule iterate_Done_acc [where I = "session_inv model cw st0", OF session_step assms(1) it])
        with item True Inr r show ?thesis by (simp add: layer_contribs_def)
      qed
    qed
  qed
qed

lemma session_lora:
  assumes "session_inv model cw st0 s C" and "patch_lora cw model prefix item s = Done s'"
  shows "session_inv model cw st0 s' (C @ lora_contribs model prefix item)"
proof -
  obtain lora w where item: "item = (lora, w)" by (cases item) auto
  from assms(2) item have it: "iterate (patch_layer cw model prefix w) (layers lora) s = Done s'"
    by (simp add: patch_lora_def)
  have "session_inv model cw st0 s' (C @ concat (map (layer_contribs model prefix w) (layers lora)))"
    by (rule iterate_Done_acc [where I = "session_inv model cw st0", OF session_layer assms(1) it])
  with item show ?thesis by (simp add: lora_contribs_def)
qed



lemma session_model:
  assumes "patch_model model st prefix loras cached_weights = Done s"
  shows "session_inv model (cw_of cached_weights) st s (contribs model prefix loras)"
proof -
  let ?s0 = "\<lparr>store = st, modified_cached_weights = [], modified_weights = [],
               layer_tensors = Map.empty\<rparr>"
  have i0: "session_inv model (cw_of cached_weights) st ?s0 []"
    by (simp add: session_inv_def inv_vals_def inv_keys_def inv_saved_def
          touched_keys_def same_tags_def)
  from assms have it: "iterate (patch_lora (cw_of cached_weights) model prefix) loras ?s0 = Done s"
    by (simp add: patch_model_def cw_of_def)
  have "session_inv model (cw_of cached_weights) st s ([] @ concat (map (lora_contribs model prefix) loras))"
    by (rule iterate_Done_acc [where I = "session_inv model (cw_of cached_weights) st", OF session_lora i0 it])
  then show ?thesis by (simp add: contribs_def)
qed

section \<open>Restoration\<close>

lemma tensor_eqI:
  "same_tags (t::tensor) t' \<Longrightarrow> elems t = elems t' \<Longrightarrow> t = t'"
  by (simp add: same_tags_def)

lemma same_tags_elems_update: "same_tags (t\<lparr>elems := e\<rparr>) t' = same_tags t t'"
  by (simp add: same_tags_def)

lemma iterate_writes:
  assumes step: "\<And>x st. x \<in> set xs \<Longrightarrow> (\<forall>a. same_tags (st a) (st0 a)) \<Longrightarrow>
            f x st = Done (st(addr x := (st (addr x))\<lparr>elems := val x\<rparr>))"
    and tags: "\<forall>a. same_tags (st a) (st0 a)"
    and cons: "\<forall>x \<in> set xs. \<forall>y \<in> set xs. addr x = addr y \<longrightarrow> val x = val y"
  shows "\<exists>st'. iterate f xs st = Done st' \<and> (\<forall>a. same_tags (st' a) (st0 a))
           \<and> (\<forall>a. (\<forall>x \<in> set xs. addr x \<noteq> a) \<longrightarrow> st' a = st a)
           \<and> (\<forall>x \<in> set xs. elems (st' (addr x)) = val x)"
  using assms
proof (induction xs arbitrary: st)
  case Nil
  have "iterate f [] st = Done st" by simp
  with Nil.prems(2) show ?case by auto
next
  case (Cons x xs)
  define st1 where "st1 = st(addr x := (st (addr x))\<lparr>elems := val x\<rparr>)"
  have fx: "f x st = Done st1"
    unfolding st1_def using Cons.prems(2) by (intro Cons.prems(1)) simp_all
  have tags1: "\<forall>a. same_tags (st1 a) (st0 a)"
    using Cons.prems(2) by (simp add: st1_def same_tags_elems_update)
  have step': "\<And>y st. y \<in> set xs \<Longrightarrow> (\<forall>a. same_tags (st a) (st0 a)) \<Longrightarrow>
            f y st = Done (st(addr y := (st (addr y))\<lparr>elems := val y\<rparr>))"
    by (rule Cons.prems(1)) simp_all
  have cons': "\<forall>x \<in> set xs. \<forall>y \<in> set xs. addr x = addr y \<longrightarrow> val x = val y"
  proof (intro ballI impI)
    fix y z assume "y \<in> set xs" "z \<in> set xs" "addr y = addr z"
    then have "y \<in> set (x # xs)" "z \<in> set (x # xs)" by simp_all
    with Cons.prems(3) \<open>addr y = addr z\<close> show "val y = val z" by blast
  qed
  from Cons.IH [OF step' tags1 cons'] obtain st' where
    it: "iterate f xs st1 = Done st'" and t': "\<forall>a. same_tags (st' a) (st0 a)"
    and un: "\<forall>a. (\<forall>y \<in> set xs. addr y \<noteq> a) \<longrightarrow> st' a = st1 a"
    and wr: "\<forall>y \<in> set xs. elems (st' (addr y)) = val y"
    by blast
  have 1: "iterate f (x # xs) st = Done st'" using fx it by simp
  have 2: "\<forall>a. (\<forall>y \<in> set (x # xs). addr y \<noteq> a) \<longrightarrow> st' a = st a"
    using un by (simp add: st1_def)
  have 3: "elems (st' (addr x)) = val x"
  proof (cases "\<exists>y \<in> set xs. addr y = addr x")
    case True
    then obtain y where y: "y \<in> set xs" "addr y = addr x" by blast
    from wr y(1) have "elems (st' (addr y)) = val y" by blast
    then have "elems (st' (addr x)) = val y" using y(2) by simp
    moreover have "x \<in> set (x # xs)" "y \<in> set (x # xs)" using y(1) by simp_all
    with Cons.prems(3) y(2) have "val x = val y" by metis
    ultimately show ?thesis by simp
  next
    case False
    with un have "st' (addr x) = st1 (addr x)" by blast
    then show ?thesis by (simp add: st1_def)
  qed
  have 4: "\<forall>y \<in> set (x # xs). elems (st' (addr y)) = val y"
    using 3 wr by simp
  show ?case
  proof (intro exI conjI)
    show "iterate f (x # xs) st = Done st'" by (rule 1)
    show "\<forall>a. same_tags (st' a) (st0 a)" by (rule t')
    show "\<forall>a. (\<forall>y \<in> set (x # xs). addr y \<noteq> a) \<longrightarrow> st' a = st a" by (rule 2)
    show "\<forall>y \<in> set (x # xs). elems (st' (addr y)) = val y" by (rule 4)
  qed
qed

lemma restore_cached_step:
  assumes "get_parameter model k = Some a" and "c k = Some t" and "shape t = shape (st a)"
  shows "restore_cached model (Some c) k st = Done (st(a := (st a)\<lparr>elems := elems t\<rparr>))"
  using assms by (simp add: restore_cached_def copy_into_def)

lemma restore_saved_step:
  assumes "get_parameter model k = Some a" and "shape v = shape (st a)"
  shows "restore_saved model (k, v) st = Done (st(a := (st a)\<lparr>elems := elems v\<rparr>))"
  using assms by (simp add: restore_saved_def copy_into_def)

lemma touched_key_address:
  assumes "keys_address model C" and "k \<in> touched_keys C"
  shows "\<exists>c \<in> set C. fst c = k \<and> get_parameter model k = Some (fst (snd c))"
proof -
  from assms(2) obtain c where c: "c \<in> set C" "fst c = k" by (auto simp: touched_keys_def)
  with assms(1) have "get_parameter model (fst c) = Some (fst (snd c))"
    unfolding keys_address_def by blast
  with c show ?thesis by blast
qed

lemma touched_key_inj:
  assumes "keys_address model C" and "unshared C"
    and "k \<in> touched_keys C" and "k' \<in> touched_keys C"
    and "get_parameter model k = Some a" and "get_parameter model k' = Some a"
  shows "k = k'"
proof -
  from touched_key_address [OF assms(1,3)] assms(5)
  obtain c where c: "c \<in> set C" "fst c = k" "fst (snd c) = a" by auto
  from touched_key_address [OF assms(1,4)] assms(6)
  obtain c' where c': "c' \<in> set C" "fst c' = k'" "fst (snd c') = a" by auto
  from assms(2) c(1) c'(1) have "fst (snd c) = fst (snd c') \<longrightarrow> fst c = fst c'"
    unfolding unshared_def by blast
  with c c' show ?thesis by simp
qed

lemma restore_cached_loop:
  assumes keys: "\<forall>k \<in> set ks. cw_of cached_weights k \<noteq> None"
    and addr: "\<forall>k \<in> set ks. \<exists>a. get_parameter model k = Some a"
    and sh: "\<forall>k \<in> set ks. \<forall>t a. cw_of cached_weights k = Some t \<longrightarrow> get_parameter model k = Some a
               \<longrightarrow> shape t = shape (st0 a)"
    and inj: "\<forall>k \<in> set ks. \<forall>k' \<in> set ks. get_parameter model k = get_parameter model k' \<longrightarrow> k = k'"
    and tags: "\<forall>a. same_tags (st a) (st0 a)"
  shows "\<exists>st'. iterate (restore_cached model cached_weights) ks st = Done st'
           \<and> (\<forall>a. same_tags (st' a) (st0 a))
           \<and> (\<forall>a. (\<forall>k \<in> set ks. get_parameter model k \<noteq> Some a) \<longrightarrow> st' a = st a)
           \<and> (\<forall>k \<in> set ks. \<forall>a. get_parameter model k = Some a
                  \<longrightarrow> elems (st' a) = elems (the (cw_of cached_weights k)))"
proof (cases cached_weights)
  case None
  have "ks = []"
  proof (rule ccontr)
    assume "ks \<noteq> []"
    then obtain k where "k \<in> set ks" by (cases ks) auto
    with keys have "cw_of cached_weights k \<noteq> None" by blast
    with None show False by (simp add: cw_of_def)
  qed
  with tags show ?thesis by simp
next
  case (Some c)
  then have cw: "cw_of cached_weights = c" by (simp add: cw_of_def)
  define ad where "ad = (\<lambda>k. the (get_parameter model k))"
  define vl where "vl = (\<lambda>k. elems (the (c k)))"
  have step: "restore_cached model (Some c) k st1
      = Done (st1(ad k := (st1 (ad k))\<lparr>elems := vl k\<rparr>))"
    if "k \<in> set ks" and t1: "\<forall>a. same_tags (st1 a) (st0 a)" for k st1
  proof -
    from addr that(1) obtain a where a: "get_parameter model k = Some a" by blast
    from keys that(1) cw obtain t where t: "c k = Some t" by auto
    from sh that(1) a t cw have "shape t = shape (st0 a)" by blast
    moreover from t1 have "shape (st1 a) = shape (st0 a)" by (simp add: same_tags_def)
    ultimately have "shape t = shape (st1 a)" by simp
    from restore_cached_step [of model k a c t st1, OF a t this] a t show ?thesis by (simp add: ad_def vl_def)
  qed
  have cons: "\<forall>x \<in> set ks. \<forall>y \<in> set ks. ad x = ad y \<longrightarrow> vl x = vl y"
  proof (intro ballI impI)
    fix x y assume xy: "x \<in> set ks" "y \<in> set ks" "ad x = ad y"
    from addr xy(1) obtain a where a: "get_parameter model x = Some a" by blast
    from addr xy(2) obtain b where b: "get_parameter model y = Some b" by blast
    from xy(3) a b have "a = b" by (simp add: ad_def)
    with inj xy(1,2) a b have "x = y" by simp
    then show "vl x = vl y" by simp
  qed
  from iterate_writes [of ks st0 "restore_cached model (Some c)" ad vl st, OF step tags cons]
  obtain st' where it: "iterate (restore_cached model (Some c)) ks st = Done st'"
    and t': "\<forall>a. same_tags (st' a) (st0 a)"
    and un: "\<forall>a. (\<forall>x \<in> set ks. ad x \<noteq> a) \<longrightarrow> st' a = st a"
    and wr: "\<forall>x \<in> set ks. elems (st' (ad x)) = vl x"
    by blast
  have un': "\<forall>a. (\<forall>k \<in> set ks. get_parameter model k \<noteq> Some a) \<longrightarrow> st' a = st a"
  proof (intro allI impI)
    fix a assume na: "\<forall>k \<in> set ks. get_parameter model k \<noteq> Some a"
    have "\<forall>x \<in> set ks. ad x \<noteq> a"
    proof
      fix x assume x: "x \<in> set ks"
      from addr x obtain b where b: "get_parameter model x = Some b" by blast
      with na x have "b \<noteq> a" by auto
      with b show "ad x \<noteq> a" by (simp add: ad_def)
    qed
    with un show "st' a = st a" by blast
  qed
  have wr': "\<forall>k \<in> set ks. \<forall>a. get_parameter model k = Some a
                  \<longrightarrow> elems (st' a) = elems (the (cw_of cached_weights k))"
  proof (intro ballI allI impI)
    fix k a assume k: "k \<in> set ks" and a: "get_parameter model k = Some a"
    from wr k have "elems (st' (ad k)) = vl k" by blast
    with a show "elems (st' a) = elems (the (cw_of cached_weights k))"
      by (simp add: ad_def vl_def cw)
  qed
  show ?thesis
  proof (intro exI conjI)
    show "iterate (restore_cached model cached_weights) ks st = Done st'"
      using it Some by simp
  qed (rule t' un' wr')+
qed

lemma restore_saved_loop:
  assumes saved: "\<forall>kv \<in> set xs. \<exists>a. get_parameter model (fst kv) = Some a \<and> snd kv = to_device (st0 a) CPU"
    and tags: "\<forall>a. same_tags (st a) (st0 a)"
  shows "\<exists>st'. iterate (restore_saved model) xs st = Done st'
           \<and> (\<forall>a. same_tags (st' a) (st0 a))
           \<and> (\<forall>a. (\<forall>kv \<in> set xs. get_parameter model (fst kv) \<noteq> Some a) \<longrightarrow> st' a = st a)
           \<and> (\<forall>kv \<in> set xs. \<forall>a. get_parameter model (fst kv) = Some a \<longrightarrow> st' a = st0 a)"
proof -
  define ad where "ad = (\<lambda>kv :: string \<times> tensor. the (get_parameter model (fst kv)))"
  define vl where "vl = (\<lambda>kv :: string \<times> tensor. elems (snd kv))"
  have step: "restore_saved model kv st1
      = Done (st1(ad kv := (st1 (ad kv))\<lparr>elems := vl kv\<rparr>))"
    if "kv \<in> set xs" and t1: "\<forall>a. same_tags (st1 a) (st0 a)" for kv st1
  proof -
    obtain k v where kv: "kv = (k, v)" by (cases kv) auto
    from saved that(1) kv obtain a where a: "get_parameter model k = Some a"
      and v: "v = to_device (st0 a) CPU" by fastforce
    from t1 have "shape (st1 a) = shape (st0 a)" by (simp add: same_tags_def)
    with v have "shape v = shape (st1 a)" by (simp add: to_device_def)
    from restore_saved_step [of model k a v st1, OF a this] a kv show ?thesis by (simp add: ad_def vl_def)
  qed
  have val: "vl kv = elems (st0 (ad kv))" if "kv \<in> set xs" for kv
  proof -
    from saved that obtain a where "get_parameter model (fst kv) = Some a"
      and "snd kv = to_device (st0 a) CPU" by blast
    then show ?thesis by (simp add: ad_def vl_def to_device_def)
  qed
  have cons: "\<forall>x \<in> set xs. \<forall>y \<in> set xs. ad x = ad y \<longrightarrow> vl x = vl y"
    using val by simp
  from iterate_writes [of xs st0 "restore_saved model" ad vl st, OF step tags cons]
  obtain st' where it: "iterate (restore_saved model) xs st = Done st'"
    and t': "\<forall>a. same_tags (st' a) (st0 a)"
    and un: "\<forall>a. (\<forall>x \<in> set xs. ad x \<noteq> a) \<longrightarrow> st' a = st a"
    and wr: "\<forall>x \<in> set xs. elems (st' (ad x)) = vl x"
    by blast
  have un': "\<forall>a. (\<forall>kv \<in> set xs. get_parameter model (fst kv) \<noteq> Some a) \<longrightarrow> st' a = st a"
  proof (intro allI impI)
    fix a assume na: "\<forall>kv \<in> set xs. get_parameter model (fst kv) \<noteq> Some a"
    have "\<forall>x \<in> set xs. ad x \<noteq> a"
    proof
      fix x assume x: "x \<in> set xs"
      from saved x obtain b where b: "get_parameter model (fst x) = Some b" by blast
      with na x have "b \<noteq> a" by auto
      with b show "ad x \<noteq> a" by (simp add: ad_def)
    qed
    with un show "st' a = st a" by blast
  qed
  have wr': "\<forall>kv \<in> set xs. \<forall>a. get_parameter model (fst kv) = Some a \<longrightarrow> st' a = st0 a"
  proof (intro ballI allI impI)
    fix kv a assume kv: "kv \<in> set xs" and a: "get_parameter model (fst kv) = Some a"
    from wr kv have "elems (st' (ad kv)) = vl kv" by blast
    with val [OF kv] a have "elems (st' a) = elems (st0 a)" by (simp add: ad_def)
    with t' show "st' a = st0 a" by (intro tensor_eqI) simp_all
  qed
  from it t' un' wr' show ?thesis by blast
qed

lemma restore_result:
  assumes inv: "session_inv model (cw_of cached_weights) st0 s C"
    and ka: "keys_address model C" and us: "unshared C"
    and sh: "\<forall>k \<in> touched_keys C. \<forall>t a. cw_of cached_weights k = Some t \<longrightarrow>
               get_parameter model k = Some a \<longrightarrow> shape t = shape (st0 a)"
  shows "\<exists>st'. restore model cached_weights s = Done st' \<and> (\<forall>a. same_tags (st' a) (st0 a))
           \<and> (\<forall>k \<in> set (modified_cached_weights s). \<forall>a. get_parameter model k = Some a
                 \<longrightarrow> elems (st' a) = elems (the (cw_of cached_weights k)))
           \<and> (\<forall>a. (\<forall>k \<in> set (modified_cached_weights s). get_parameter model k \<noteq> Some a)
                 \<longrightarrow> st' a = st0 a)"
proof -
  let ?mc = "modified_cached_weights s" and ?mw = "modified_weights s"
  from inv have iv: "inv_vals st0 s C" and ik: "inv_keys (cw_of cached_weights) s C"
    by (simp_all add: session_inv_def)
  from inv ka us have isv: "inv_saved model st0 s" by (simp add: session_inv_def)
  from ik have tk: "set ?mc \<union> fst ` set ?mw = touched_keys C"
    and dj: "set ?mc \<inter> fst ` set ?mw = {}"
    and cn: "\<forall>k \<in> set ?mc. cw_of cached_weights k \<noteq> None"
    by (simp_all add: inv_keys_def)
  have mct: "k \<in> touched_keys C" if "k \<in> set ?mc" for k using tk that by blast
  have mwt: "fst kv \<in> touched_keys C" if "kv \<in> set ?mw" for kv using tk that by blast
  have tags: "\<forall>a. same_tags (store s a) (st0 a)" using iv by (simp add: inv_vals_def)
  have addr: "\<forall>k \<in> set ?mc. \<exists>a. get_parameter model k = Some a"
    using touched_key_address [OF ka mct] by blast
  have sh': "\<forall>k \<in> set ?mc. \<forall>t a. cw_of cached_weights k = Some t \<longrightarrow>
               get_parameter model k = Some a \<longrightarrow> shape t = shape (st0 a)"
    using sh mct by blast
  have inj: "\<forall>k \<in> set ?mc. \<forall>k' \<in> set ?mc. get_parameter model k = get_parameter model k' \<longrightarrow> k = k'"
  proof (intro ballI impI)
    fix k k' assume k: "k \<in> set ?mc" "k' \<in> set ?mc"
      and e: "get_parameter model k = get_parameter model k'"
    from addr k(1) obtain a where a: "get_parameter model k = Some a" by blast
    with e have "get_parameter model k' = Some a" by simp
    from touched_key_inj [OF ka us mct [OF k(1)] mct [OF k(2)] a this] show "k = k'" .
  qed
  from restore_cached_loop [OF cn addr sh' inj tags]
  obtain st1 where it1: "iterate (restore_cached model cached_weights) ?mc (store s) = Done st1"
    and t1: "\<forall>a. same_tags (st1 a) (st0 a)"
    and un1: "\<forall>a. (\<forall>k \<in> set ?mc. get_parameter model k \<noteq> Some a) \<longrightarrow> st1 a = store s a"
    and wr1: "\<forall>k \<in> set ?mc. \<forall>a. get_parameter model k = Some a
                  \<longrightarrow> elems (st1 a) = elems (the (cw_of cached_weights k))"
    by blast
  from isv have saved: "\<forall>kv \<in> set ?mw. \<exists>a. get_parameter model (fst kv) = Some a
      \<and> snd kv = to_device (st0 a) CPU"
    by (simp add: inv_saved_def)
  from restore_saved_loop [OF saved t1]
  obtain st2 where it2: "iterate (restore_saved model) ?mw st1 = Done st2"
    and t2: "\<forall>a. same_tags (st2 a) (st0 a)"
    and un2: "\<forall>a. (\<forall>kv \<in> set ?mw. get_parameter model (fst kv) \<noteq> Some a) \<longrightarrow> st2 a = st1 a"
    and wr2: "\<forall>kv \<in> set ?mw. \<forall>a. get_parameter model (fst kv) = Some a \<longrightarrow> st2 a = st0 a"
    by blast
  have r: "restore model cached_weights s = Done st2"
    using it1 it2 by (simp add: restore_def)
  have c1: "\<forall>k \<in> set ?mc. \<forall>a. get_parameter model k = Some a
                 \<longrightarrow> elems (st2 a) = elems (the (cw_of cached_weights k))"
  proof (intro ballI allI impI)
    fix k a assume k: "k \<in> set ?mc" and a: "get_parameter model k = Some a"
    have "\<forall>kv \<in> set ?mw. get_parameter model (fst kv) \<noteq> Some a"
    proof
      fix kv assume kv: "kv \<in> set ?mw"
      show "get_parameter model (fst kv) \<noteq> Some a"
      proof
        assume "get_parameter model (fst kv) = Some a"
        from touched_key_inj [OF ka us mct [OF k] mwt [OF kv] a this] have "k = fst kv" .
        with k kv dj show False by auto
      qed
    qed
    with un2 have "st2 a = st1 a" by blast
    with wr1 k a show "elems (st2 a) = elems (the (cw_of cached_weights k))" by simp
  qed
  have c2: "\<forall>a. (\<forall>k \<in> set ?mc. get_parameter model k \<noteq> Some a) \<longrightarrow> st2 a = st0 a"
  proof (intro allI impI)
    fix a assume na: "\<forall>k \<in> set ?mc. get_parameter model k \<noteq> Some a"
    show "st2 a = st0 a"
    proof (cases "\<exists>kv \<in> set ?mw. get_parameter model (fst kv) = Some a")
      case True
      with wr2 show ?thesis by blast
    next
      case False
      with un2 have "st2 a = st1 a" by blast
      also from un1 na have "st1 a = store s a" by blast
      also have "store s a = st0 a"
      proof (rule untouched_address [OF iv], rule ballI, rule notI)
        fix c assume c: "c \<in> set C" and ca: "fst (snd c) = a"
        from ka c have g: "get_parameter model (fst c) = Some (fst (snd c))"
          unfolding keys_address_def by blast
        from c have "fst c \<in> touched_keys C" by (simp add: touched_keys_def)
        with tk have "fst c \<in> set ?mc \<or> fst c \<in> fst ` set ?mw" by blast
        then show False
        proof
          assume "fst c \<in> set ?mc"
          with na g ca show False by auto
        next
          assume "fst c \<in> fst ` set ?mw"
          then obtain kv where "kv \<in> set ?mw" "fst kv = fst c" by auto
          with False g ca show False by auto
        qed
      qed
      finally show ?thesis .
    qed
  qed
  from r t2 c1 c2 show ?thesis by blast
qed

section \<open>Properties of a session\<close>

lemma restore_round_trip:
  assumes inv: "session_inv model (cw_of cached_weights) st s C"
    and ka: "keys_address model C" and us: "unshared C"
    and ca: "cache_agrees model st cached_weights C"
  shows "restore model cached_weights s = Done st"
proof -
  from ca have cached: "\<forall>k \<in> touched_keys C. \<forall>t a.
                   cw_of cached_weights k = Some t \<longrightarrow> get_parameter model k = Some a \<longrightarrow>
                   shape t = shape (st a) \<and> elems t = elems (st a)"
    unfolding cache_agrees_def .
  from inv have ik: "inv_keys (cw_of cached_weights) s C" by (simp add: session_inv_def)
  have sh: "\<forall>k \<in> touched_keys C. \<forall>t a. cw_of cached_weights k = Some t \<longrightarrow>
               get_parameter model k = Some a \<longrightarrow> shape t = shape (st a)"
    using cached by blast
  from restore_result [OF inv ka us sh] obtain st' where
    r: "restore model cached_weights s = Done st'"
    and t: "\<forall>a. same_tags (st' a) (st a)"
    and cv: "\<forall>k \<in> set (modified_cached_weights s). \<forall>a. get_parameter model k = Some a
                 \<longrightarrow> elems (st' a) = elems (the (cw_of cached_weights k))"
    and un: "\<forall>a. (\<forall>k \<in> set (modified_cached_weights s). get_parameter model k \<noteq> Some a)
                 \<longrightarrow> st' a = st a"
    by blast
  have "st' a = st a" for a
  proof (cases "\<exists>k \<in> set (modified_cached_weights s). get_parameter model k = Some a")
    case False
    with un show ?thesis by blast
  next
    case True
    then obtain k where k: "k \<in> set (modified_cached_weights s)"
      and a: "get_parameter model k = Some a" by blast
    from ik k have kt: "k \<in> touched_keys C" and "cw_of cached_weights k \<noteq> None"
      unfolding inv_keys_def by blast+
    then obtain tt where tt: "cw_of cached_weights k = Some tt" by auto
    from cached kt tt a have "elems tt = elems (st a)" by blast
    moreover from cv k a tt have "elems (st' a) = elems tt" by simp
    ultimately have "elems (st' a) = elems (st a)" by simp
    with t show ?thesis by (intro tensor_eqI) simp_all
  qed
  then have "st' = st" by (rule ext)
  with r show ?thesis by simp
qed

text \<open>
  C1, as the source has it: when patching completes, the keys address the patched
  tensors, no tensor is shared, and every touched key of \<^verbatim>\<open>cached_weights\<close> holds
  the shape and the elements the parameter had before the patch, then the scope
  ends (returning, or raising the exception of the body) with every tensor, and so
  every touched parameter, equal to its value before the patch.
\<close>

theorem static_patch_model_round_trip:
  assumes p: "patch_model model st prefix loras cached_weights = Done s"
    and ka: "keys_address model (contribs model prefix loras)"
    and us: "unshared (contribs model prefix loras)"
    and ca: "cache_agrees model st cached_weights (contribs model prefix loras)"
  shows "static_patch_model model st prefix loras cached_weights body
           = (case body (store s) of None \<Rightarrow> Done st | Some e \<Rightarrow> Raised e st)
       \<and> (\<forall>k \<in> touched_keys (contribs model prefix loras).
             param_value model (state_of (static_patch_model model st prefix loras cached_weights body)) k
               = param_value model st k)"
proof -
  let ?C = "contribs model prefix loras"
  from ca have cached: "\<forall>k \<in> touched_keys ?C. \<forall>t a.
                   cw_of cached_weights k = Some t \<longrightarrow> get_parameter model k = Some a \<longrightarrow>
                   shape t = shape (st a) \<and> elems t = elems (st a)"
    unfolding cache_agrees_def .
  have inv: "session_inv model (cw_of cached_weights) st s ?C" by (rule session_model [OF p])
  then have ik: "inv_keys (cw_of cached_weights) s ?C" by (simp add: session_inv_def)
  have sh: "\<forall>k \<in> touched_keys ?C. \<forall>t a. cw_of cached_weights k = Some t \<longrightarrow>
               get_parameter model k = Some a \<longrightarrow> shape t = shape (st a)"
    using cached by blast
  from restore_result [OF inv ka us sh] obtain st' where
    r: "restore model cached_weights s = Done st'"
    and t: "\<forall>a. same_tags (st' a) (st a)"
    and cv: "\<forall>k \<in> set (modified_cached_weights s). \<forall>a. get_parameter model k = Some a
                 \<longrightarrow> elems (st' a) = elems (the (cw_of cached_weights k))"
    and un: "\<forall>a. (\<forall>k \<in> set (modified_cached_weights s). get_parameter model k \<noteq> Some a)
                 \<longrightarrow> st' a = st a"
    by blast
  have "st' a = st a" for a
  proof (cases "\<exists>k \<in> set (modified_cached_weights s). get_parameter model k = Some a")
    case False
    with un show ?thesis by blast
  next
    case True
    then obtain k where k: "k \<in> set (modified_cached_weights s)"
      and a: "get_parameter model k = Some a" by blast
    from ik k have kt: "k \<in> touched_keys ?C" and "cw_of cached_weights k \<noteq> None"
      unfolding inv_keys_def by blast+
    then obtain tt where tt: "cw_of cached_weights k = Some tt" by auto
    from cached kt tt a have "elems tt = elems (st a)" by blast
    moreover from cv k a tt have "elems (st' a) = elems tt" by simp
    ultimately have "elems (st' a) = elems (st a)" by simp
    with t show ?thesis by (intro tensor_eqI) simp_all
  qed
  then have "st' = st" by (rule ext)
  with r p have out: "static_patch_model model st prefix loras cached_weights body
           = (case body (store s) of None \<Rightarrow> Done st | Some e \<Rightarrow> Raised e st)"
    by (simp add: static_patch_model_def Let_def)
  then have "state_of (static_patch_model model st prefix loras cached_weights body) = st"
    by (simp split: option.splits)
  with out show ?thesis by simp
qed

text \<open>
  C3, as the source has it: a completed session holds every key at most once in
  \<^verbatim>\<open>modified_weights\<close> and in \<^verbatim>\<open>modified_cached_weights\<close>, and never in both,
  however many layers touched it. When the keys address the patched tensors and no
  tensor is patched under two keys, the value saved under a key is the value of
  the parameter before the patch; when moreover the touched keys of
  \<^verbatim>\<open>cached_weights\<close> hold the values before the patch, restoration completes and
  leaves every tensor at the value it had before its first touch.
\<close>

theorem patch_model_saves_once:
  assumes p: "patch_model model st prefix loras cached_weights = Done s"
  shows "distinct (map fst (modified_weights s)) \<and> distinct (modified_cached_weights s)
       \<and> set (modified_cached_weights s) \<inter> fst ` set (modified_weights s) = {}
       \<and> (keys_address model (contribs model prefix loras) \<and> unshared (contribs model prefix loras) \<longrightarrow>
            (\<forall>kv \<in> set (modified_weights s).
               \<exists>a. get_parameter model (fst kv) = Some a \<and> snd kv = to_device (st a) CPU))
       \<and> (keys_address model (contribs model prefix loras) \<and> unshared (contribs model prefix loras)
          \<and> cache_agrees model st cached_weights (contribs model prefix loras) \<longrightarrow>
            restore model cached_weights s = Done st)"
proof -
  let ?C = "contribs model prefix loras"
  have inv: "session_inv model (cw_of cached_weights) st s ?C" by (rule session_model [OF p])
  then have ik: "inv_keys (cw_of cached_weights) s ?C"
    by (simp add: session_inv_def)
  from ik have d1: "distinct (map fst (modified_weights s))"
    and d2: "distinct (modified_cached_weights s)"
    and d3: "set (modified_cached_weights s) \<inter> fst ` set (modified_weights s) = {}"
    by (simp_all add: inv_keys_def)
  have sv: "\<forall>kv \<in> set (modified_weights s).
               \<exists>a. get_parameter model (fst kv) = Some a \<and> snd kv = to_device (st a) CPU"
    if h: "keys_address model ?C \<and> unshared ?C"
  proof -
    from inv h have "inv_saved model st s" by (simp add: session_inv_def)
    then show ?thesis unfolding inv_saved_def .
  qed
  have rs: "restore model cached_weights s = Done st"
    if h: "keys_address model ?C \<and> unshared ?C \<and> cache_agrees model st cached_weights ?C"
  proof -
    from h have h1: "keys_address model ?C" by (rule conjunct1)
    from h have h2: "unshared ?C" by (rule conjunct1 [OF conjunct2])
    from h have h3: "cache_agrees model st cached_weights ?C" by (rule conjunct2 [OF conjunct2])
    show ?thesis by (rule restore_round_trip [OF inv h1 h2 h3])
  qed
  show ?thesis
  proof (intro conjI impI)
    assume "keys_address model ?C \<and> unshared ?C"
    then show "\<forall>kv \<in> set (modified_weights s).
               \<exists>a. get_parameter model (fst kv) = Some a \<and> snd kv = to_device (st a) CPU"
      by (rule sv)
  next
    assume "keys_address model ?C \<and> unshared ?C \<and> cache_agrees model st cached_weights ?C"
    then show "restore model cached_weights s = Done st" by (rule rs)
  qed (rule d1 d2 d3)+
qed


section \<open>Tags are preserved\<close>

lemma patch_layer_tags:
  assumes "\<forall>a. same_tags (store s a) (st0 a)"
  shows "\<forall>a. same_tags (store (state_of (patch_layer cw model prefix w item s)) a) (st0 a)"
proof -
  obtain layer_key layer where item: "item = (layer_key, layer)" by (cases item) auto
  show ?thesis
  proof (cases "startswith layer_key prefix")
    case False
    with assms item show ?thesis by (simp add: patch_layer_def)
  next
    case True
    show ?thesis
    proof (cases "resolve_lora_key model layer_key prefix")
      case (Inl e)
      with assms item True show ?thesis by (simp add: patch_layer_def)
    next
      case (Inr r)
      obtain mk md where r: "r = (mk, md)" by (cases r) auto
      show ?thesis
      proof (cases "map_of (parameters md) ''weight''")
        case None
        with assms item True Inr r show ?thesis by (simp add: patch_layer_def)
      next
        case (Some wa)
        have "\<forall>a. same_tags (store (state_of (iterate
                 (patch_param cw mk md w (layer_scale layer) (dtype (store s wa)))
                 (get_parameters layer md) s)) a) (st0 a)"
          by (rule iterate_state_inv [where P = "\<lambda>s. \<forall>a. same_tags (store s a) (st0 a)"])
             (rule patch_param_tags, assumption, rule assms)
        with item True Inr r Some show ?thesis by (simp add: patch_layer_def)
      qed
    qed
  qed
qed

lemma patch_lora_tags:
  assumes "\<forall>a. same_tags (store s a) (st0 a)"
  shows "\<forall>a. same_tags (store (state_of (patch_lora cw model prefix item s)) a) (st0 a)"
proof -
  obtain lora w where item: "item = (lora, w)" by (cases item) auto
  have "\<forall>a. same_tags (store (state_of (iterate (patch_layer cw model prefix w) (layers lora) s)) a) (st0 a)"
    by (rule iterate_state_inv [where P = "\<lambda>s. \<forall>a. same_tags (store s a) (st0 a)"])
       (rule patch_layer_tags, assumption, rule assms)
  with item show ?thesis by (simp add: patch_lora_def)
qed

lemma patch_model_tags:
  "\<forall>a. same_tags (store (state_of (patch_model model st prefix loras cached_weights)) a) (st a)"
proof -
  let ?s0 = "\<lparr>store = st, modified_cached_weights = [], modified_weights = [],
               layer_tensors = Map.empty\<rparr>"
  have 0: "\<forall>a. same_tags (store ?s0 a) (st a)" by (simp add: same_tags_def)
  have "\<forall>a. same_tags (store (state_of (iterate (patch_lora (cw_of cached_weights) model prefix) loras ?s0)) a) (st a)"
    by (rule iterate_state_inv [where P = "\<lambda>s. \<forall>a. same_tags (store s a) (st a)"])
       (rule patch_lora_tags, assumption, rule 0)
  then show ?thesis by (simp add: patch_model_def cw_of_def)
qed

lemma copy_into_tags: "copy_into p t = Inr p' \<Longrightarrow> same_tags p' p"
  by (auto simp: copy_into_def same_tags_def split: if_splits option.splits)

lemma restore_cached_tags:
  assumes "\<forall>a. same_tags (st a) (st0 a)"
  shows "\<forall>a. same_tags (state_of (restore_cached model cached_weights k st) a) (st0 a)"
proof (cases "restore_cached model cached_weights k st")
  case (Raised e st')
  then have "st' = st"
    by (auto simp: restore_cached_def split: option.splits sum.splits)
  with Raised assms show ?thesis by simp
next
  case (Done st')
  then obtain a c t p' where "get_parameter model k = Some a" and "copy_into (st a) t = Inr p'"
    and st': "st' = st(a := p')"
    by (auto simp: restore_cached_def split: option.splits sum.splits)
  from copy_into_tags [OF this(2)] assms have "same_tags p' (st0 a)"
    by (auto simp: same_tags_def)
  with Done st' assms show ?thesis by simp
qed

lemma restore_saved_tags:
  assumes "\<forall>a. same_tags (st a) (st0 a)"
  shows "\<forall>a. same_tags (state_of (restore_saved model item st) a) (st0 a)"
proof (cases "restore_saved model item st")
  case (Raised e st')
  then have "st' = st"
    by (auto simp: restore_saved_def split: option.splits sum.splits prod.splits)
  with Raised assms show ?thesis by simp
next
  case (Done st')
  then obtain a t p' where "copy_into (st a) t = Inr p'" and st': "st' = st(a := p')"
    by (auto simp: restore_saved_def split: option.splits sum.splits prod.splits)
  from copy_into_tags [OF this(1)] assms have "same_tags p' (st0 a)"
    by (auto simp: same_tags_def)
  with Done st' assms show ?thesis by simp
qed

lemma restore_tags:
  assumes "\<forall>a. same_tags (store s a) (st0 a)"
  shows "\<forall>a. same_tags (state_of (restore model cached_weights s) a) (st0 a)"
proof -
  have 1: "\<forall>a. same_tags (state_of (iterate (restore_cached model cached_weights)
              (modified_cached_weights s) (store s)) a) (st0 a)"
    by (rule iterate_state_inv [where P = "\<lambda>st. \<forall>a. same_tags (st a) (st0 a)"])
       (rule restore_cached_tags, assumption, rule assms)
  show ?thesis
  proof (cases "iterate (restore_cached model cached_weights) (modified_cached_weights s) (store s)")
    case (Raised e st1)
    with 1 show ?thesis by (simp add: restore_def)
  next
    case (Done st1)
    with 1 have t1: "\<forall>a. same_tags (st1 a) (st0 a)" by simp
    have "\<forall>a. same_tags (state_of (iterate (restore_saved model) (modified_weights s) st1) a) (st0 a)"
      by (rule iterate_state_inv [where P = "\<lambda>st. \<forall>a. same_tags (st a) (st0 a)"])
         (rule restore_saved_tags, assumption, rule t1)
    with Done show ?thesis by (simp add: restore_def)
  qed
qed

text \<open>
  C9: patching and restoration leave the shape, the dtype and the device of every
  tensor of the model as they were, whether they complete or raise; only elements
  change.
\<close>

theorem tags_preserved:
  "(\<forall>a. same_tags (store (state_of (patch_model model st prefix loras cached_weights)) a) (st a))
   \<and> (\<forall>a. same_tags (state_of (restore model cached_weights s) a) (store s a))
   \<and> (\<forall>a. same_tags (state_of (static_patch_model model st prefix loras cached_weights body) a) (st a))"
proof (intro conjI)
  show p: "\<forall>a. same_tags (store (state_of (patch_model model st prefix loras cached_weights)) a) (st a)"
    by (rule patch_model_tags)
  show "\<forall>a. same_tags (state_of (restore model cached_weights s) a) (store s a)"
    by (rule restore_tags) (simp add: same_tags_def)
  show "\<forall>a. same_tags (state_of (static_patch_model model st prefix loras cached_weights body) a) (st a)"
  proof (cases "patch_model model st prefix loras cached_weights")
    case (Raised e s1)
    with p show ?thesis by (simp add: static_patch_model_def)
  next
    case (Done s1)
    with p have "\<forall>a. same_tags (store s1 a) (st a)" by simp
    from restore_tags [OF this, of model cached_weights]
    have r: "\<forall>a. same_tags (state_of (restore model cached_weights s1) a) (st a)" .
    show ?thesis
    proof (cases "restore model cached_weights s1")
      case (Raised e st')
      with r Done show ?thesis by (simp add: static_patch_model_def Let_def)
    next
      case Done': (Done st')
      with r Done show ?thesis
        by (cases "body (store s1)") (simp_all add: static_patch_model_def Let_def)
    qed
  qed
qed

section \<open>What a session does to the tensors of a layer\<close>

lemma iterate_Done_fold:
  assumes "\<And>x s s'. f x s = Done s' \<Longrightarrow> g s' = h (g s) x"
    and "iterate f xs s = Done s'"
  shows "g s' = foldl h (g s) xs"
  using assms(2)
proof (induction xs arbitrary: s)
  case Nil
  then show ?case by simp
next
  case (Cons x xs)
  show ?case
  proof (cases "f x s")
    case (Done s1)
    with Cons.prems have "iterate f xs s1 = Done s'" by simp
    from Cons.IH [OF this] assms(1) [OF Done] show ?thesis by simp
  next
    case (Raised e s1)
    with Cons.prems show ?thesis by simp
  qed
qed

lemma patch_param_layer_tensors:
  assumes "patch_param cw mk md w sc dt item s = Done s'"
  shows "layer_tensors s' = scale_delta (w * sc) (layer_tensors s) (snd item)"
proof -
  obtain pn d where item: "item = (pn, d)" by (cases item) auto
  from assms item have "patch_param cw mk md w sc dt (pn, d) s = Done s'" by simp
  then obtain a p' where "layer_tensors s' = scale_delta (w * sc) (layer_tensors s) d"
    by (rule patch_param_Done)
  with item show ?thesis by simp
qed

lemma scale_delta_other:
  assumes "\<forall>t. d \<noteq> Stored b t"
  shows "scale_delta c lt d b = lt b"
  using assms by (cases d) (auto simp: scale_delta_def)

lemma scale_deltas_other:
  assumes "\<forall>pn t. (pn, Stored b t) \<notin> set items"
  shows "scale_deltas c items lt b = lt b"
  using assms
proof (induction items arbitrary: lt)
  case Nil
  then show ?case by (simp add: scale_deltas_def)
next
  case (Cons item items)
  obtain pn d where item: "item = (pn, d)" by (cases item) auto
  from Cons.prems item have "\<forall>t. d \<noteq> Stored b t" by auto
  then have 1: "scale_delta c lt d b = lt b" by (rule scale_delta_other)
  from Cons.prems have "\<forall>pn t. (pn, Stored b t) \<notin> set items" by simp
  from Cons.IH [OF this, of "scale_delta c lt d"] 1 item show ?case
    by (simp add: scale_deltas_def)
qed

text \<open>
  C8, as the source has it: processing a layer whose key starts with the prefix
  and resolves multiplies in place, by \<open>lora_weight * layer_scale\<close>, every tensor
  that \<^verbatim>\<open>get_parameters\<close> handed out and that the layer owns, in the order of the
  items, directly or through the reshaped view; it writes to no other tensor of a
  layer.
\<close>

theorem patch_layer_scales_deltas:
  assumes "patch_layer cw model prefix w (layer_key, layer) s = Done s'"
    and "startswith layer_key prefix"
    and "resolve_lora_key model layer_key prefix = Inr (module_key, md)"
  shows "layer_tensors s'
           = scale_deltas (w * layer_scale layer) (get_parameters layer md) (layer_tensors s)
       \<and> (\<forall>b. (\<forall>pn t. (pn, Stored b t) \<notin> set (get_parameters layer md)) \<longrightarrow>
              layer_tensors s' b = layer_tensors s b)"
proof -
  from assms obtain wa where "map_of (parameters md) ''weight'' = Some wa"
    by (cases "map_of (parameters md) ''weight''") (simp_all add: patch_layer_def)
  with assms have it: "iterate (patch_param cw module_key md w (layer_scale layer) (dtype (store s wa)))
      (get_parameters layer md) s = Done s'"
    by (simp add: patch_layer_def)
  have e: "layer_tensors s'
      = foldl (\<lambda>lt item. scale_delta (w * layer_scale layer) lt (snd item)) (layer_tensors s)
          (get_parameters layer md)"
  proof (rule iterate_Done_fold [where g = layer_tensors
        and f = "patch_param cw module_key md w (layer_scale layer) (dtype (store s wa))"
        and h = "\<lambda>lt item. scale_delta (w * layer_scale layer) lt (snd item)"])
    fix x s1 s2
    assume "patch_param cw module_key md w (layer_scale layer) (dtype (store s wa)) x s1 = Done s2"
    then show "layer_tensors s2 = scale_delta (w * layer_scale layer) (layer_tensors s1) (snd x)"
      by (rule patch_param_layer_tensors)
  next
    show "iterate (patch_param cw module_key md w (layer_scale layer) (dtype (store s wa)))
      (get_parameters layer md) s = Done s'"
      by (rule it)
  qed
  then have 1: "layer_tensors s'
           = scale_deltas (w * layer_scale layer) (get_parameters layer md) (layer_tensors s)"
    by (simp add: scale_deltas_def)
  have 2: "\<forall>b. (\<forall>pn t. (pn, Stored b t) \<notin> set (get_parameters layer md)) \<longrightarrow>
              layer_tensors s' b = layer_tensors s b"
    unfolding 1 by (intro allI impI) (rule scale_deltas_other)
  from 1 2 show ?thesis by (rule conjI)
qed

section \<open>The properties on the small models\<close>

lemma ex_resolve:
  "resolve_lora_key ex_model ''lora_unet_foo_bar_baz'' ''lora_unet_'' = Inr (''foo.bar_baz'', ex_leaf)"
  by (simp add: resolve_lora_key_def startswith_def lstrip_def get_submodule_def ex_model_def)

lemma ex_resolve_a:
  "resolve_lora_key ex_tied_model ''lora_unet_a'' ''lora_unet_'' = Inr (''a'', ex_leaf)"
  by (simp add: resolve_lora_key_def startswith_def lstrip_def get_submodule_def ex_tied_model_def)

lemma ex_resolve_b:
  "resolve_lora_key ex_tied_model ''lora_unet_b'' ''lora_unet_'' = Inr (''b'', ex_leaf)"
  by (simp add: resolve_lora_key_def startswith_def lstrip_def get_submodule_def ex_tied_model_def)


lemma ex_leaf_weight: "get_parameter ex_leaf ''weight'' = Some 0"
  by (simp add: get_parameter_def rpartition_def get_submodule_def ex_leaf_def)

lemma ex_key_address: "get_parameter ex_model ex_key = Some 0"
  by (simp add: get_parameter_def rpartition_def get_submodule_def ex_model_def ex_leaf_def ex_key_def)


lemma ex_tied_a_address: "get_parameter ex_tied_model ''a.weight'' = Some 0"
  by (simp add: get_parameter_def rpartition_def get_submodule_def ex_tied_model_def ex_leaf_def)

lemma ex_tied_b_address: "get_parameter ex_tied_model ''b.weight'' = Some 0"
  by (simp add: get_parameter_def rpartition_def get_submodule_def ex_tied_model_def ex_leaf_def)

lemma ex_contribs:
  "contribs ex_model ''lora_unet_'' ex_loras
     = [(ex_key, 0, 1/2, 1, Fresh ex_ones), (ex_key, 0, 2, 1, Fresh ex_ones)]"
  by (simp add: contribs_def lora_contribs_def layer_contribs_def param_contrib_def ex_loras_def
        ex_lora_def ex_resolve ex_leaf_weight startswith_def layer_scale_def truthy_real_def
        truthy_int_def ex_layer_def ex_key_def)


text \<open>One patched parameter of the small models: a fresh delta of ones on the weight of zeros.\<close>

lemma ex_patch_layer:
  "patch_layer cw ex_model ''lora_unet_'' w (''lora_unet_foo_bar_baz'', ex_layer) s
     = patch_param cw ''foo.bar_baz'' ex_leaf w 1 (dtype (store s 0)) (''weight'', Fresh ex_ones) s"
  by (simp add: patch_layer_def startswith_def ex_resolve layer_scale_def truthy_real_def truthy_int_def
        ex_layer_def ex_leaf_def split: outcome.splits)


lemma ex_patch_layer_stored:
  "patch_layer cw ex_model ''lora_unet_'' w (''lora_unet_foo_bar_baz'', ex_stored_layer) s
     = patch_param cw ''foo.bar_baz'' ex_leaf w 1 (dtype (store s 0))
         (''weight'', Stored 7 ex_ones) s"
  by (simp add: patch_layer_def startswith_def ex_resolve layer_scale_def truthy_real_def truthy_int_def
        ex_stored_layer_def ex_leaf_def split: outcome.splits)

lemma ex_patch_layer_a:
  "patch_layer cw ex_tied_model ''lora_unet_'' w (''lora_unet_a'', ex_layer) s
     = patch_param cw ''a'' ex_leaf w 1 (dtype (store s 0)) (''weight'', Fresh ex_ones) s"
  by (simp add: patch_layer_def startswith_def ex_resolve_a layer_scale_def truthy_real_def truthy_int_def
        ex_layer_def ex_leaf_def split: outcome.splits)

lemma ex_patch_layer_b:
  "patch_layer cw ex_tied_model ''lora_unet_'' w (''lora_unet_b'', ex_layer) s
     = patch_param cw ''b'' ex_leaf w 1 (dtype (store s 0)) (''weight'', Fresh ex_ones) s"
  by (simp add: patch_layer_def startswith_def ex_resolve_b layer_scale_def truthy_real_def truthy_int_def
        ex_layer_def ex_leaf_def split: outcome.splits)

lemmas ex_eval =
  patch_model_def patch_lora_def patch_param_def ex_leaf_weight save_original_def Let_def
  current_def current_in_def scale_in_place_def scale_delta_def reshape_def numel_def
  to_device_def to_dtype_def imul_def iadd_def ex_store_def ex_zeros_def ex_ones_def

lemma ex_patch: "patch_model ex_model ex_store ''lora_unet_'' ex_loras None = Done ex_patched"
  by (simp add: ex_eval ex_loras_def ex_lora_def ex_patch_layer ex_patched_def ex_key_def)

lemma ex_patch_cached:
  "patch_model ex_model ex_store ''lora_unet_'' ex_loras ex_cached = Done ex_patched_cached"
  by (simp add: ex_eval ex_loras_def ex_lora_def ex_patch_layer ex_patched_cached_def ex_key_def
        ex_cached_def)

lemma ex_patch_stale:
  "patch_model ex_model ex_store ''lora_unet_'' ex_loras ex_stale = Done ex_patched_cached"
  by (simp add: ex_eval ex_loras_def ex_lora_def ex_patch_layer ex_patched_cached_def ex_key_def
        ex_stale_def)


lemma ex_patch_stored:
  "patch_model ex_model ex_store ''lora_unet_'' ex_stored_loras None = Done ex_stored_patched"
  by (simp add: ex_eval ex_stored_loras_def ex_patch_layer_stored ex_stored_patched_def ex_key_def)

lemma ex_patch_tied:
  "patch_model ex_tied_model ex_store ''lora_unet_'' ex_tied_loras None = Done ex_tied_patched"
  by (simp add: ex_eval ex_tied_loras_def ex_patch_layer_a ex_patch_layer_b ex_tied_patched_def)

lemma ex_keys_address: "keys_address ex_model (contribs ex_model ''lora_unet_'' ex_loras)"
  by (simp add: keys_address_def ex_contribs ex_key_address)

lemma ex_unshared: "unshared (contribs ex_model ''lora_unet_'' ex_loras)"
  by (simp add: unshared_def ex_contribs)

lemma ex_touched: "touched_keys (contribs ex_model ''lora_unet_'' ex_loras) = {ex_key}"
  by (simp add: touched_keys_def ex_contribs)

theorem static_patch_model_round_trip_witness:
  "patch_model ex_model ex_store ''lora_unet_'' ex_loras ex_cached = Done ex_patched_cached
   \<and> keys_address ex_model (contribs ex_model ''lora_unet_'' ex_loras)
   \<and> unshared (contribs ex_model ''lora_unet_'' ex_loras)
   \<and> cache_agrees ex_model ex_store ex_cached (contribs ex_model ''lora_unet_'' ex_loras)
   \<and> static_patch_model ex_model ex_store ''lora_unet_'' ex_loras ex_cached (\<lambda>st. Some BodyError)
       = Raised BodyError ex_store
   \<and> param_value ex_model
        (state_of (static_patch_model ex_model ex_store ''lora_unet_'' ex_loras ex_cached
           (\<lambda>st. Some BodyError))) ex_key
       = param_value ex_model ex_store ex_key"
proof -
  have c: "cache_agrees ex_model ex_store ex_cached (contribs ex_model ''lora_unet_'' ex_loras)"
    by (simp add: cache_agrees_def ex_touched cw_of_def ex_cached_def ex_store_def ex_zeros_def)
  note rt = static_patch_model_round_trip [OF ex_patch_cached ex_keys_address ex_unshared c,
      of "\<lambda>st. Some BodyError"]
  from rt have out: "static_patch_model ex_model ex_store ''lora_unet_'' ex_loras ex_cached
      (\<lambda>st. Some BodyError) = Raised BodyError ex_store"
    by simp
  have pv: "param_value ex_model
        (state_of (static_patch_model ex_model ex_store ''lora_unet_'' ex_loras ex_cached
           (\<lambda>st. Some BodyError))) ex_key
       = param_value ex_model ex_store ex_key"
    unfolding out by simp
  show ?thesis
    by (intro conjI) (rule ex_patch_cached ex_keys_address ex_unshared c out pv)+
qed

theorem static_patch_model_stale_cache:
  "static_patch_model ex_model ex_store ''lora_unet_'' ex_loras ex_stale (\<lambda>st. None)
     = Done (ex_store(0 := ex_zeros\<lparr>elems := [7, 7, 7, 7]\<rparr>))
   \<and> param_value ex_model
        (state_of (static_patch_model ex_model ex_store ''lora_unet_'' ex_loras ex_stale (\<lambda>st. None)))
        ex_key
       \<noteq> param_value ex_model ex_store ex_key"
proof -
  have r: "restore ex_model ex_stale ex_patched_cached
             = Done (ex_store(0 := ex_zeros\<lparr>elems := [7, 7, 7, 7]\<rparr>))"
    by (simp add: restore_def restore_cached_def ex_patched_cached_def ex_key_address ex_stale_def
          copy_into_def ex_zeros_def)
  then have s: "static_patch_model ex_model ex_store ''lora_unet_'' ex_loras ex_stale (\<lambda>st. None)
     = Done (ex_store(0 := ex_zeros\<lparr>elems := [7, 7, 7, 7]\<rparr>))"
    by (simp add: static_patch_model_def ex_patch_stale)
  show ?thesis
    unfolding s by (simp add: param_value_def ex_key_address ex_store_def ex_zeros_def)
qed

lemma ex_cache_agrees_none:
  "cache_agrees ex_model ex_store None (contribs ex_model ''lora_unet_'' ex_loras)"
  by (simp add: cache_agrees_def cw_of_def)

theorem patch_model_saves_once_witness:
  "patch_model ex_model ex_store ''lora_unet_'' ex_loras None = Done ex_patched
   \<and> keys_address ex_model (contribs ex_model ''lora_unet_'' ex_loras)
   \<and> unshared (contribs ex_model ''lora_unet_'' ex_loras)
   \<and> cache_agrees ex_model ex_store None (contribs ex_model ''lora_unet_'' ex_loras)
   \<and> length (contribs ex_model ''lora_unet_'' ex_loras) = 2
   \<and> modified_weights ex_patched = [(ex_key, to_device (ex_store 0) CPU)]
   \<and> restore ex_model None ex_patched = Done ex_store"
proof -
  note t = patch_model_saves_once [OF ex_patch]
  from t ex_keys_address ex_unshared ex_cache_agrees_none
  have r: "restore ex_model None ex_patched = Done ex_store"
    by blast
  have l: "length (contribs ex_model ''lora_unet_'' ex_loras) = 2"
    by (simp add: ex_contribs)
  have m: "modified_weights ex_patched = [(ex_key, to_device (ex_store 0) CPU)]"
    by (simp add: ex_patched_def to_device_def ex_store_def)
  show ?thesis
    by (intro conjI) (rule ex_patch ex_keys_address ex_unshared ex_cache_agrees_none l m r)+
qed

text \<open>
  With tied weights the key \<^verbatim>\<open>a.weight\<close>, touched by two layers, is saved once, but
  \<^verbatim>\<open>b.weight\<close> saves the tensor after the first patch, and the scope ends with the
  parameter at that intermediate value.
\<close>

theorem tied_weights_not_reverted:
  "patch_model ex_tied_model ex_store ''lora_unet_'' ex_tied_loras None = Done ex_tied_patched
   \<and> static_patch_model ex_tied_model ex_store ''lora_unet_'' ex_tied_loras None (\<lambda>st. None)
       = Done (ex_store(0 := ex_zeros\<lparr>elems := [1, 1, 1, 1]\<rparr>))
   \<and> param_value ex_tied_model
        (state_of (static_patch_model ex_tied_model ex_store ''lora_unet_'' ex_tied_loras None
           (\<lambda>st. None))) ''a.weight''
       \<noteq> param_value ex_tied_model ex_store ''a.weight''"
proof -
  have r: "restore ex_tied_model None ex_tied_patched
             = Done (ex_store(0 := ex_zeros\<lparr>elems := [1, 1, 1, 1]\<rparr>))"
    by (simp add: restore_def restore_saved_def ex_tied_patched_def ex_tied_a_address
          ex_tied_b_address copy_into_def ex_zeros_def)
  then have s: "static_patch_model ex_tied_model ex_store ''lora_unet_'' ex_tied_loras None
       (\<lambda>st. None) = Done (ex_store(0 := ex_zeros\<lparr>elems := [1, 1, 1, 1]\<rparr>))"
    by (simp add: static_patch_model_def ex_patch_tied)
  have n: "param_value ex_tied_model
        (state_of (static_patch_model ex_tied_model ex_store ''lora_unet_'' ex_tied_loras None
           (\<lambda>st. None))) ''a.weight''
       \<noteq> param_value ex_tied_model ex_store ''a.weight''"
    unfolding s by (simp add: param_value_def ex_tied_a_address ex_store_def ex_zeros_def)
  show ?thesis
    by (intro conjI) (rule ex_patch_tied s n)+
qed




theorem patch_layer_scales_deltas_witness:
  "patch_layer Map.empty ex_model ''lora_unet_'' (1/2) (''lora_unet_foo_bar_baz'', ex_stored_layer)
       ex_session = Done ex_stored_patched
   \<and> startswith ''lora_unet_foo_bar_baz'' ''lora_unet_''
   \<and> resolve_lora_key ex_model ''lora_unet_foo_bar_baz'' ''lora_unet_'' = Inr (''foo.bar_baz'', ex_leaf)
   \<and> layer_tensors ex_stored_patched 7 = Some (ex_ones\<lparr>elems := [1/2, 1/2, 1/2, 1/2]\<rparr>)
   \<and> layer_tensors ex_stored_patched 8 = layer_tensors ex_session 8"
proof -
  have p: "patch_layer Map.empty ex_model ''lora_unet_'' (1/2)
       (''lora_unet_foo_bar_baz'', ex_stored_layer) ex_session = Done ex_stored_patched"
    by (simp add: ex_patch_layer_stored ex_eval ex_session_def ex_stored_patched_def ex_key_def)
  have sw: "startswith ''lora_unet_foo_bar_baz'' ''lora_unet_''"
    by (simp add: startswith_def)
  note t = patch_layer_scales_deltas [OF p sw ex_resolve]
  from t have "layer_tensors ex_stored_patched
           = scale_deltas (1/2 * layer_scale ex_stored_layer) (get_parameters ex_stored_layer ex_leaf)
               (layer_tensors ex_session)"
    by (rule conjunct1)
  then have 7: "layer_tensors ex_stored_patched 7 = Some (ex_ones\<lparr>elems := [1/2, 1/2, 1/2, 1/2]\<rparr>)"
    by (simp add: scale_deltas_def scale_delta_def current_in_def imul_def layer_scale_def
          truthy_real_def truthy_int_def ex_stored_layer_def ex_session_def ex_ones_def)
  from t have "\<forall>b. (\<forall>pn t. (pn, Stored b t) \<notin> set (get_parameters ex_stored_layer ex_leaf)) \<longrightarrow>
              layer_tensors ex_stored_patched b = layer_tensors ex_session b"
    by (rule conjunct2)
  then have "(\<forall>pn t. (pn, Stored 8 t) \<notin> set (get_parameters ex_stored_layer ex_leaf)) \<longrightarrow>
              layer_tensors ex_stored_patched 8 = layer_tensors ex_session 8"
    by (rule spec)
  then have 8: "layer_tensors ex_stored_patched 8 = layer_tensors ex_session 8"
    by (simp add: ex_stored_layer_def)
  show ?thesis
    by (intro conjI) (rule p sw ex_resolve 7 8)+
qed

text \<open>
  A session over a layer that hands out a tensor it owns leaves that tensor, which
  held ones, holding halves.
\<close>

theorem stored_delta_changed:
  "patch_model ex_model ex_store ''lora_unet_'' ex_stored_loras None = Done ex_stored_patched
   \<and> current ex_session (Stored 7 ex_ones) = ex_ones
   \<and> current ex_stored_patched (Stored 7 ex_ones) = ex_ones\<lparr>elems := [1/2, 1/2, 1/2, 1/2]\<rparr>
   \<and> ex_ones\<lparr>elems := [1/2, 1/2, 1/2, 1/2]\<rparr> \<noteq> ex_ones"
proof -
  have 1: "current ex_session (Stored 7 ex_ones) = ex_ones"
    by (simp add: current_def current_in_def ex_session_def)
  have 2: "current ex_stored_patched (Stored 7 ex_ones) = ex_ones\<lparr>elems := [1/2, 1/2, 1/2, 1/2]\<rparr>"
    by (simp add: current_def current_in_def ex_stored_patched_def)
  have 3: "ex_ones\<lparr>elems := [1/2, 1/2, 1/2, 1/2]\<rparr> \<noteq> ex_ones"
    by (simp add: ex_ones_def)
  show ?thesis
    by (intro conjI) (rule ex_patch_stored 1 2 3)+
qed

end
